theory Spec2Isabelle
  imports Main "HOL-Library.Multiset"
begin

section \<open>JavaScript values used by the reconciler\<close>

text \<open>
  The reconciler of \<^verbatim>\<open>js/modules/yandex-api.js\<close> reads three kinds of property from the
  records it merges: the identity \<^verbatim>\<open>id\<close> (a key of a JavaScript \<^verbatim>\<open>Map\<close>) and the time
  fields \<^verbatim>\<open>date\<close>, \<^verbatim>\<open>updatedAt\<close> and \<^verbatim>\<open>timestamp\<close> (arguments of \<^verbatim>\<open>new Date\<close>).
  A property value is one of the primitive values a parsed JSON document can hold;
  \<open>JUndefined\<close> is what reading a property that the object lacks gives. Numbers are
  integral (milliseconds since the epoch); fractions and object-valued properties are
  outside the model.
\<close>

datatype jsval = JUndefined | JNull | JBool bool | JNum int | JStr string

text \<open>\<^verbatim>\<open>ToBoolean\<close>: the test made by \<^verbatim>\<open>a || b\<close>.\<close>

fun truthy :: "jsval \<Rightarrow> bool" where
  "truthy JUndefined = False"
| "truthy JNull = False"
| "truthy (JBool b) = b"
| "truthy (JNum n) = (n \<noteq> 0)"
| "truthy (JStr s) = (s \<noteq> [])"

definition js_or :: "jsval \<Rightarrow> jsval \<Rightarrow> jsval" where
  "js_or a b = (if truthy a then a else b)"

text \<open>
  The time value of a \<^verbatim>\<open>Date\<close> object is \<open>Some t\<close> (milliseconds), or \<open>None\<close> for
  an Invalid Date, whose time value is \<^verbatim>\<open>NaN\<close>. \<^verbatim>\<open>new Date(v)\<close> parses a string with
  \<^verbatim>\<open>Date.parse\<close> and converts any other primitive with \<^verbatim>\<open>ToNumber\<close>, then clips to the
  representable range. \<^verbatim>\<open>Date.parse\<close> is host code whose result outside the ISO format is
  implementation-defined, so it is the parameter \<open>dp\<close> of everything below.
\<close>

type_synonym timeval = "int option"
type_synonym date_parse = "string \<Rightarrow> timeval"

definition TimeClip :: "int \<Rightarrow> timeval" where
  "TimeClip t = (if \<bar>t\<bar> > 8640000000000000 then None else Some t)"

fun newDate :: "date_parse \<Rightarrow> jsval \<Rightarrow> timeval" where
  "newDate dp JUndefined = None"
| "newDate dp JNull = TimeClip 0"
| "newDate dp (JBool b) = TimeClip (if b then 1 else 0)"
| "newDate dp (JNum n) = TimeClip n"
| "newDate dp (JStr s) = dp s"

text \<open>
  \<^verbatim>\<open>d1 > d2\<close> on two \<^verbatim>\<open>Date\<close> objects compares their time values as numbers; every
  comparison with \<^verbatim>\<open>NaN\<close> is false. \<^verbatim>\<open>d1 - d2\<close> is the difference, \<^verbatim>\<open>NaN\<close> when either
  date is invalid.
\<close>

fun date_gt :: "timeval \<Rightarrow> timeval \<Rightarrow> bool" where
  "date_gt (Some x) (Some y) = (x > y)"
| "date_gt _ _ = False"

fun date_minus :: "timeval \<Rightarrow> timeval \<Rightarrow> timeval" where
  "date_minus (Some x) (Some y) = Some (x - y)"
| "date_minus _ _ = None"

section \<open>Arrays, exceptions, \<^verbatim>\<open>Map\<close>, \<^verbatim>\<open>Set\<close> and \<^verbatim>\<open>sort\<close>\<close>

text \<open>
  An element of an input array is an object, or \<^verbatim>\<open>null\<close>/\<^verbatim>\<open>undefined\<close>, on
  which a property read throws a \<^verbatim>\<open>TypeError\<close>.
\<close>

datatype 'r item = Obj 'r | Nullish

datatype js_error = TypeError

text \<open>\<^verbatim>\<open>xs.forEach(f)\<close> with a callback that updates a state and may throw.\<close>

fun forEach :: "'a list \<Rightarrow> ('a \<Rightarrow> 's \<Rightarrow> js_error + 's) \<Rightarrow> 's \<Rightarrow> js_error + 's" where
  "forEach [] f s = Inr s"
| "forEach (x # xs) f s = (case f x s of Inl e \<Rightarrow> Inl e | Inr s' \<Rightarrow> forEach xs f s')"

text \<open>
  A \<^verbatim>\<open>Map\<close> keeps its entries in insertion order; \<^verbatim>\<open>set\<close> on a key that is present
  replaces the value where the entry stands, and appends a new entry otherwise. Keys are
  compared by \<^verbatim>\<open>SameValueZero\<close>, which on the primitives of \<^typ>\<open>jsval\<close> is equality.
\<close>

type_synonym 'r jsmap = "(jsval \<times> 'r) list"

fun map_get :: "'r jsmap \<Rightarrow> jsval \<Rightarrow> 'r option" where
  "map_get [] k = None"
| "map_get ((k', v) # m) k = (if k' = k then Some v else map_get m k)"

fun map_set :: "'r jsmap \<Rightarrow> jsval \<Rightarrow> 'r \<Rightarrow> 'r jsmap" where
  "map_set [] k v = [(k, v)]"
| "map_set ((k', v') # m) k v = (if k' = k then (k, v) # m else (k', v') # map_set m k v)"

definition map_values :: "'r jsmap \<Rightarrow> 'r list" where
  "map_values m = map snd m"

text \<open>A \<^verbatim>\<open>Set\<close> iterates in insertion order; \<^verbatim>\<open>add\<close> of a member changes nothing.\<close>

definition set_add :: "'a list \<Rightarrow> 'a \<Rightarrow> 'a list" where
  "set_add s x = (if x \<in> set s then s else s @ [x])"

text \<open>
  \<^verbatim>\<open>Array.prototype.sort(cmp)\<close> is stable; a comparator result \<^verbatim>\<open>NaN\<close> counts as
  \<open>0\<close>. For a consistent comparator the result is the one stable ordering, which the
  insertion below computes. With an inconsistent comparator (here: Invalid Dates among the
  keys) the order is implementation-defined, and only the elements of the result, not their
  order, are meaningful.
\<close>

definition sort_compare :: "('a \<Rightarrow> 'a \<Rightarrow> timeval) \<Rightarrow> 'a \<Rightarrow> 'a \<Rightarrow> int" where
  "sort_compare cmp a b = (case cmp a b of None \<Rightarrow> 0 | Some v \<Rightarrow> v)"

fun sort_insert :: "('a \<Rightarrow> 'a \<Rightarrow> timeval) \<Rightarrow> 'a \<Rightarrow> 'a list \<Rightarrow> 'a list" where
  "sort_insert cmp a [] = [a]"
| "sort_insert cmp a (b # bs) =
     (if sort_compare cmp a b \<le> 0 then a # b # bs else b # sort_insert cmp a bs)"

definition array_sort :: "('a \<Rightarrow> 'a \<Rightarrow> timeval) \<Rightarrow> 'a list \<Rightarrow> 'a list" where
  "array_sort cmp xs = foldr (sort_insert cmp) xs []"

section \<open>The reconciler\<close>

subsection \<open>Recent exercises\<close>

text \<open>
  \<^verbatim>\<open>
  mergeRecentExercises(localRecent, remoteRecent) {
    const exerciseSet = new Set();
    [...localRecent, ...remoteRecent].forEach(exercise => { exerciseSet.add(exercise); });
    return Array.from(exerciseSet).slice(0, 10);
  }
  \<close>
\<close>

definition mergeRecentExercises :: "'a list \<Rightarrow> 'a list \<Rightarrow> 'a list" where
  "mergeRecentExercises localRecent remoteRecent =
     take 10 (fold (\<lambda>exercise exerciseSet. set_add exerciseSet exercise)
                   (localRecent @ remoteRecent) [])"

text \<open>
  The description to compare with: a list deduplicated keeping each element's first
  occurrence.
\<close>

fun dedupe_first :: "'a list \<Rightarrow> 'a list" where
  "dedupe_first [] = []"
| "dedupe_first (x # xs) = x # dedupe_first (filter (\<lambda>y. y \<noteq> x) xs)"

subsection \<open>Workouts\<close>

text \<open>
  A workout object, as far as the reconciler reads it; \<open>workout_rest\<close> stands for all other
  properties (\<^verbatim>\<open>deviceId\<close>, \<^verbatim>\<open>exercises\<close>, ...), which the merge carries along untouched.
  \<^verbatim>\<open>
  mergeWorkouts(localWorkouts, remoteWorkouts) {
    const workoutMap = new Map();
    localWorkouts.forEach(workout => { workoutMap.set(workout.id, workout); });
    remoteWorkouts.forEach(workout => {
      const existing = workoutMap.get(workout.id);
      if (!existing) {
        workoutMap.set(workout.id, workout);
      } else {
        const existingDate = new Date(existing.updatedAt || existing.date);
        const remoteDate = new Date(workout.updatedAt || workout.date);
        if (remoteDate > existingDate) { workoutMap.set(workout.id, workout); }
      }
    });
    return Array.from(workoutMap.values()).sort((a, b) => new Date(b.date) - new Date(a.date));
  }
  \<close>
  The values stored in the map are objects, hence truthy: \<^verbatim>\<open>!existing\<close> holds exactly when
  the key is not in the map.
\<close>

record workout =
  workout_id :: jsval
  date :: jsval
  updatedAt :: jsval
  workout_rest :: string

definition addLocalWorkout :: "workout item \<Rightarrow> workout jsmap \<Rightarrow> js_error + workout jsmap" where
  "addLocalWorkout workout workoutMap =
     (case workout of
        Nullish \<Rightarrow> Inl TypeError
      | Obj w \<Rightarrow> Inr (map_set workoutMap (workout_id w) w))"

definition mergeRemoteWorkout ::
  "date_parse \<Rightarrow> workout item \<Rightarrow> workout jsmap \<Rightarrow> js_error + workout jsmap" where
  "mergeRemoteWorkout dp workout workoutMap =
     (case workout of
        Nullish \<Rightarrow> Inl TypeError
      | Obj w \<Rightarrow>
          (case map_get workoutMap (workout_id w) of
             None \<Rightarrow> Inr (map_set workoutMap (workout_id w) w)
           | Some existing \<Rightarrow>
               (let existingDate = newDate dp (js_or (updatedAt existing) (date existing));
                    remoteDate = newDate dp (js_or (updatedAt w) (date w))
                in if date_gt remoteDate existingDate
                   then Inr (map_set workoutMap (workout_id w) w)
                   else Inr workoutMap)))"

definition compareWorkouts :: "date_parse \<Rightarrow> workout \<Rightarrow> workout \<Rightarrow> timeval" where
  "compareWorkouts dp a b = date_minus (newDate dp (date b)) (newDate dp (date a))"

definition mergeWorkouts ::
  "date_parse \<Rightarrow> workout item list \<Rightarrow> workout item list \<Rightarrow> js_error + workout list" where
  "mergeWorkouts dp localWorkouts remoteWorkouts =
     (case forEach localWorkouts addLocalWorkout [] of
        Inl e \<Rightarrow> Inl e
      | Inr workoutMap \<Rightarrow>
          (case forEach remoteWorkouts (mergeRemoteWorkout dp) workoutMap of
             Inl e \<Rightarrow> Inl e
           | Inr workoutMap' \<Rightarrow>
               Inr (array_sort (compareWorkouts dp) (map_values workoutMap'))))"

subsection \<open>Body analyses\<close>

text \<open>
  \<^verbatim>\<open>
  mergeBodyAnalyses(localAnalyses, remoteAnalyses) {
    const analysisMap = new Map();
    localAnalyses.forEach(analysis => { analysisMap.set(analysis.id, analysis); });
    remoteAnalyses.forEach(analysis => {
      const existing = analysisMap.get(analysis.id);
      if (!existing) {
        analysisMap.set(analysis.id, analysis);
      } else {
        const existingDate = new Date(existing.timestamp);
        const remoteDate = new Date(analysis.timestamp);
        if (remoteDate > existingDate) { analysisMap.set(analysis.id, analysis); }
      }
    });
    return Array.from(analysisMap.values()).sort((a, b) =>
      new Date(b.timestamp) - new Date(a.timestamp));
  }
  \<close>
\<close>

record analysis =
  analysis_id :: jsval
  timestamp :: jsval
  analysis_rest :: string

definition addLocalAnalysis :: "analysis item \<Rightarrow> analysis jsmap \<Rightarrow> js_error + analysis jsmap" where
  "addLocalAnalysis analysis analysisMap =
     (case analysis of
        Nullish \<Rightarrow> Inl TypeError
      | Obj a \<Rightarrow> Inr (map_set analysisMap (analysis_id a) a))"

definition mergeRemoteAnalysis ::
  "date_parse \<Rightarrow> analysis item \<Rightarrow> analysis jsmap \<Rightarrow> js_error + analysis jsmap" where
  "mergeRemoteAnalysis dp analysis analysisMap =
     (case analysis of
        Nullish \<Rightarrow> Inl TypeError
      | Obj a \<Rightarrow>
          (case map_get analysisMap (analysis_id a) of
             None \<Rightarrow> Inr (map_set analysisMap (analysis_id a) a)
           | Some existing \<Rightarrow>
               (let existingDate = newDate dp (timestamp existing);
                    remoteDate = newDate dp (timestamp a)
                in if date_gt remoteDate existingDate
                   then Inr (map_set analysisMap (analysis_id a) a)
                   else Inr analysisMap)))"

definition compareAnalyses :: "date_parse \<Rightarrow> analysis \<Rightarrow> analysis \<Rightarrow> timeval" where
  "compareAnalyses dp a b = date_minus (newDate dp (timestamp b)) (newDate dp (timestamp a))"

definition mergeBodyAnalyses ::
  "date_parse \<Rightarrow> analysis item list \<Rightarrow> analysis item list \<Rightarrow> js_error + analysis list" where
  "mergeBodyAnalyses dp localAnalyses remoteAnalyses =
     (case forEach localAnalyses addLocalAnalysis [] of
        Inl e \<Rightarrow> Inl e
      | Inr analysisMap \<Rightarrow>
          (case forEach remoteAnalyses (mergeRemoteAnalysis dp) analysisMap of
             Inl e \<Rightarrow> Inl e
           | Inr analysisMap' \<Rightarrow>
               Inr (array_sort (compareAnalyses dp) (map_values analysisMap'))))"

subsection \<open>Datasets\<close>

text \<open>
  The document exchanged with the remote storage. A collection is \<open>None\<close> when the
  property is missing or \<^verbatim>\<open>null\<close>, the case \<^verbatim>\<open>x || []\<close> replaces by the empty array;
  \<open>other_fields\<close> are the further properties an exported document carries
  (\<^verbatim>\<open>config\<close>, \<^verbatim>\<open>exportDate\<close>). A dataset argument is \<open>None\<close> when it is \<^verbatim>\<open>null\<close> or
  \<^verbatim>\<open>undefined\<close>.
  \<^verbatim>\<open>
  mergeData(localData, remoteData) {
    try {
      if (!remoteData) { return localData; }
      if (!localData) { return remoteData; }
      const mergedWorkouts =
        this.mergeWorkouts(localData.workouts || [], remoteData.workouts || []);
      const mergedRecentExercises = this.mergeRecentExercises(
        localData.recentExercises || [], remoteData.recentExercises || []);
      const mergedBodyAnalyses = this.mergeBodyAnalyses(
        localData.bodyAnalyses || [], remoteData.bodyAnalyses || []);
      const mergedData = { workouts: mergedWorkouts, recentExercises: mergedRecentExercises,
                           bodyAnalyses: mergedBodyAnalyses };
      return mergedData;
    } catch (error) { logger.error('Failed to merge data:', error); throw error; }
  }
  \<close>
\<close>

record dataset =
  workouts :: "workout item list option"
  recentExercises :: "string list option"
  bodyAnalyses :: "analysis item list option"
  other_fields :: "(string \<times> string) list"

definition or_empty :: "'a list option \<Rightarrow> 'a list" where
  "or_empty field = (case field of None \<Rightarrow> [] | Some xs \<Rightarrow> xs)"

definition mergeData ::
  "date_parse \<Rightarrow> dataset option \<Rightarrow> dataset option \<Rightarrow> js_error + dataset option" where
  "mergeData dp localData remoteData =
     (case remoteData of
        None \<Rightarrow> Inr localData
      | Some remote \<Rightarrow>
          (case localData of
             None \<Rightarrow> Inr remoteData
           | Some local \<Rightarrow>
               (case mergeWorkouts dp (or_empty (workouts local)) (or_empty (workouts remote)) of
                  Inl e \<Rightarrow> Inl e
                | Inr mergedWorkouts \<Rightarrow>
                    (let mergedRecentExercises =
                           mergeRecentExercises (or_empty (recentExercises local))
                                                (or_empty (recentExercises remote))
                     in case mergeBodyAnalyses dp (or_empty (bodyAnalyses local))
                                                  (or_empty (bodyAnalyses remote)) of
                          Inl e \<Rightarrow> Inl e
                        | Inr mergedBodyAnalyses \<Rightarrow>
                            Inr (Some \<lparr>workouts = Some (map Obj mergedWorkouts),
                                       recentExercises = Some mergedRecentExercises,
                                       bodyAnalyses = Some (map Obj mergedBodyAnalyses),
                                       other_fields = []\<rparr>)))))"

section \<open>The calls to the remote disk\<close>

text \<open>
  Every method of the API object talks to the disk through \<^verbatim>\<open>fetch\<close>. The network is a
  function from the request made to what \<^verbatim>\<open>fetch\<close> gives back: a rejected promise, or a
  response with its status and its body as \<^verbatim>\<open>response.json()\<close> reads it (\<open>None\<close> when
  the body is not JSON and \<^verbatim>\<open>json()\<close> rejects). A body is \<^verbatim>\<open>null\<close>, an object read for
  its \<^verbatim>\<open>href\<close> property, or a stored document. Each method returns its result, or the
  error it throws, together with the requests it made, in order. A request carries the
  OAuth token of its \<^verbatim>\<open>Authorization\<close> header and the path, or the \<^verbatim>\<open>href\<close> it goes
  to and the body it puts. Logging is left out.
\<close>

datatype 'd json_body = JsonNull | JsonInfo "string option" | JsonData 'd

datatype 'd fetch_result = Rejected | Response nat "'d json_body option"

datatype 'd request =
    CreateFolderPUT string string
  | UploadUrlGET string string
  | FilePUT string 'd
  | DownloadUrlGET string string
  | FileGET string

type_synonym 'd network = "'d request \<Rightarrow> 'd fetch_result"

datatype api_error =
    NoTokenProvided
  | HttpStatus nat
  | GetUploadUrlFailed nat
  | NoUploadUrl
  | UploadFailed nat
  | NoDownloadUrl
  | FileDownloadFailed nat
  | FetchRejected
  | JsonRejected
  | TypeErrorThrown

text \<open>
  \<^verbatim>\<open>response.ok\<close>; reading \<^verbatim>\<open>info.href\<close>, which throws on \<^verbatim>\<open>null\<close>;
  \<^verbatim>\<open>s.lastIndexOf(c)\<close>, \<open>-1\<close> when \<open>c\<close> does not occur; \<^verbatim>\<open>s.substring(start, end)\<close>,
  which clamps both indices to the string and swaps them when they are out of order.
\<close>

definition response_ok :: "nat \<Rightarrow> bool" where
  "response_ok status = (200 \<le> status \<and> status \<le> 299)"

definition get_href :: "'d json_body \<Rightarrow> api_error + string option" where
  "get_href body =
     (case body of
        JsonNull \<Rightarrow> Inl TypeErrorThrown
      | JsonInfo href \<Rightarrow> Inr href
      | JsonData d \<Rightarrow> Inr None)"

fun scan_last :: "char \<Rightarrow> string \<Rightarrow> int \<Rightarrow> int \<Rightarrow> int" where
  "scan_last c [] i found = found"
| "scan_last c (x # xs) i found = scan_last c xs (i + 1) (if x = c then i else found)"

definition lastIndexOf :: "string \<Rightarrow> char \<Rightarrow> int" where
  "lastIndexOf s c = scan_last c s 0 (- 1)"

definition substring :: "string \<Rightarrow> int \<Rightarrow> int \<Rightarrow> string" where
  "substring s start end =
     (let n = int (length s);
          a = max 0 (min start n);
          b = max 0 (min end n)
      in take (nat (max a b - min a b)) (drop (nat (min a b)) s))"

text \<open>
  \<^verbatim>\<open>
  async createFolder(path) {
    if (!this.token) { throw new Error('No token provided'); }
    const response = await fetch(`${API}/resources?path=${encodeURIComponent(path)}`,
                                 { method: 'PUT', ... });
    if (response.status === 409) { return { success: true, exists: true }; }
    if (!response.ok) { throw new Error(`HTTP ${response.status}: ...`); }
    return { success: true, exists: false };
  }
  \<close>
  The result is the \<^verbatim>\<open>exists\<close> flag.
\<close>

definition createFolder ::
  "'d network \<Rightarrow> string option \<Rightarrow> string \<Rightarrow> (api_error + bool) \<times> 'd request list" where
  "createFolder net token path =
     (case token of
        None \<Rightarrow> (Inl NoTokenProvided, [])
      | Some t \<Rightarrow>
          if t = [] then (Inl NoTokenProvided, [])
          else (case net (CreateFolderPUT t path) of
                  Rejected \<Rightarrow> (Inl FetchRejected, [CreateFolderPUT t path])
                | Response status body \<Rightarrow>
                    if status = 409 then (Inr True, [CreateFolderPUT t path])
                    else if \<not> response_ok status
                      then (Inl (HttpStatus status), [CreateFolderPUT t path])
                    else (Inr False, [CreateFolderPUT t path])))"

text \<open>
  \<^verbatim>\<open>
  async uploadFile(path, data, contentType = 'application/json') {
    if (!this.token) { throw new Error('No token provided'); }
    const uploadUrlResponse = await fetch(`${API}/resources/upload?path=...&overwrite=true`, ...);
    if (!uploadUrlResponse.ok) { throw new Error(`Failed to get upload URL: HTTP ...`); }
    const uploadInfo = await uploadUrlResponse.json();
    if (!uploadInfo.href) { throw new Error('No upload URL received'); }
    const uploadResponse = await fetch(uploadInfo.href, { method: 'PUT', ..., body: data });
    if (!uploadResponse.ok) { throw new Error(`Upload failed: HTTP ...`); }
    return { success: true };
  }
  \<close>
\<close>

definition uploadFile ::
  "'d network \<Rightarrow> string option \<Rightarrow> string \<Rightarrow> 'd \<Rightarrow> (api_error + unit) \<times> 'd request list" where
  "uploadFile net token path data =
     (case token of
        None \<Rightarrow> (Inl NoTokenProvided, [])
      | Some t \<Rightarrow>
          if t = [] then (Inl NoTokenProvided, [])
          else (case net (UploadUrlGET t path) of
                  Rejected \<Rightarrow> (Inl FetchRejected, [UploadUrlGET t path])
                | Response status body \<Rightarrow>
                    if \<not> response_ok status
                      then (Inl (GetUploadUrlFailed status), [UploadUrlGET t path])
                    else (case body of
                            None \<Rightarrow> (Inl JsonRejected, [UploadUrlGET t path])
                          | Some uploadInfo \<Rightarrow>
                              (case get_href uploadInfo of
                                 Inl e \<Rightarrow> (Inl e, [UploadUrlGET t path])
                               | Inr None \<Rightarrow> (Inl NoUploadUrl, [UploadUrlGET t path])
                               | Inr (Some href) \<Rightarrow>
                                   if href = [] then (Inl NoUploadUrl, [UploadUrlGET t path])
                                   else (case net (FilePUT href data) of
                                           Rejected \<Rightarrow>
                                             (Inl FetchRejected,
                                              [UploadUrlGET t path, FilePUT href data])
                                         | Response status' body' \<Rightarrow>
                                             if \<not> response_ok status'
                                               then (Inl (UploadFailed status'),
                                                     [UploadUrlGET t path, FilePUT href data])
                                             else (Inr (),
                                                   [UploadUrlGET t path, FilePUT href data]))))))"

text \<open>
  \<^verbatim>\<open>
  async downloadFile(path) {
    if (!this.token) { throw new Error('No token provided'); }
    const response = await fetch(`${API}/resources/download?path=...`, ...);
    if (!response.ok) {
      if (response.status === 404) { return null; }
      throw new Error(`HTTP ${response.status}: ...`);
    }
    const downloadInfo = await response.json();
    if (!downloadInfo.href) { throw new Error('No download URL received'); }
    const fileResponse = await fetch(downloadInfo.href);
    if (!fileResponse.ok) { throw new Error(`File download failed: HTTP ...`); }
    const fileData = await fileResponse.json();
    return fileData;
  }
  \<close>
\<close>

definition downloadFile ::
  "'d network \<Rightarrow> string option \<Rightarrow> string \<Rightarrow> (api_error + 'd json_body) \<times> 'd request list" where
  "downloadFile net token path =
     (case token of
        None \<Rightarrow> (Inl NoTokenProvided, [])
      | Some t \<Rightarrow>
          if t = [] then (Inl NoTokenProvided, [])
          else (case net (DownloadUrlGET t path) of
                  Rejected \<Rightarrow> (Inl FetchRejected, [DownloadUrlGET t path])
                | Response status body \<Rightarrow>
                    if \<not> response_ok status
                      then (if status = 404 then (Inr JsonNull, [DownloadUrlGET t path])
                            else (Inl (HttpStatus status), [DownloadUrlGET t path]))
                    else (case body of
                            None \<Rightarrow> (Inl JsonRejected, [DownloadUrlGET t path])
                          | Some downloadInfo \<Rightarrow>
                              (case get_href downloadInfo of
                                 Inl e \<Rightarrow> (Inl e, [DownloadUrlGET t path])
                               | Inr None \<Rightarrow> (Inl NoDownloadUrl, [DownloadUrlGET t path])
                               | Inr (Some href) \<Rightarrow>
                                   if href = [] then (Inl NoDownloadUrl, [DownloadUrlGET t path])
                                   else (case net (FileGET href) of
                                           Rejected \<Rightarrow>
                                             (Inl FetchRejected,
                                              [DownloadUrlGET t path, FileGET href])
                                         | Response status' body' \<Rightarrow>
                                             if \<not> response_ok status'
                                               then (Inl (FileDownloadFailed status'),
                                                     [DownloadUrlGET t path, FileGET href])
                                             else (case body' of
                                                     None \<Rightarrow>
                                                       (Inl JsonRejected,
                                                        [DownloadUrlGET t path, FileGET href])
                                                   | Some fileData \<Rightarrow>
                                                       (Inr fileData,
                                                        [DownloadUrlGET t path,
                                                         FileGET href])))))))"

text \<open>
  The body put by \<open>syncData\<close> is \<^verbatim>\<open>JSON.stringify(localData, null, 2)\<close>; a request holds
  the document that text denotes. \<open>remotePath\<close> is \<open>None\<close> when the caller passes no path,
  and \<^verbatim>\<open>remotePath.substring\<close> throws.
  \<^verbatim>\<open>
  async syncData(localData, remotePath) {
    if (!this.token) { throw new Error('No token provided'); }
    try {
      const folderPath = remotePath.substring(0, remotePath.lastIndexOf('/'));
      await this.createFolder(folderPath);
      const jsonData = JSON.stringify(localData, null, 2);
      await this.uploadFile(remotePath, jsonData);
      return { success: true };
    } catch (error) { logger.error(...); throw error; }
  }

  async loadData(remotePath) {
    if (!this.token) { throw new Error('No token provided'); }
    try {
      const data = await this.downloadFile(remotePath);
      if (!data) { return null; }
      return data;
    } catch (error) { logger.error(...); throw error; }
  }
  \<close>
\<close>

definition syncData ::
  "'d network \<Rightarrow> string option \<Rightarrow> 'd \<Rightarrow> string option
     \<Rightarrow> (api_error + unit) \<times> 'd request list" where
  "syncData net token localData remotePath =
     (case token of
        None \<Rightarrow> (Inl NoTokenProvided, [])
      | Some t \<Rightarrow>
          if t = [] then (Inl NoTokenProvided, [])
          else (case remotePath of
                  None \<Rightarrow> (Inl TypeErrorThrown, [])
                | Some path \<Rightarrow>
                    (let folderPath = substring path 0 (lastIndexOf path CHR ''/'')
                     in case createFolder net token folderPath of
                          (Inl e, sent) \<Rightarrow> (Inl e, sent)
                        | (Inr created, sent) \<Rightarrow>
                            (case uploadFile net token path localData of
                               (Inl e, sent') \<Rightarrow> (Inl e, sent @ sent')
                             | (Inr uploaded, sent') \<Rightarrow> (Inr (), sent @ sent')))))"

definition loadData ::
  "'d network \<Rightarrow> string option \<Rightarrow> string \<Rightarrow> (api_error + 'd json_body) \<times> 'd request list" where
  "loadData net token remotePath =
     (case token of
        None \<Rightarrow> (Inl NoTokenProvided, [])
      | Some t \<Rightarrow>
          if t = [] then (Inl NoTokenProvided, [])
          else (case downloadFile net token remotePath of
                  (Inl e, sent) \<Rightarrow> (Inl e, sent)
                | (Inr data, sent) \<Rightarrow>
                    (case data of JsonNull \<Rightarrow> (Inr JsonNull, sent) | _ \<Rightarrow> (Inr data, sent))))"

section \<open>Notions used to state the properties\<close>

text \<open>
  Both merges are one algorithm over a key and a time stamp. On arrays of objects no
  callback throws, and the two \<^verbatim>\<open>forEach\<close> loops are folds of the steps below.
\<close>

definition put_step :: "('r \<Rightarrow> jsval) \<Rightarrow> 'r \<Rightarrow> 'r jsmap \<Rightarrow> 'r jsmap" where
  "put_step key w m = map_set m (key w) w"

definition merge_step :: "('r \<Rightarrow> jsval) \<Rightarrow> ('r \<Rightarrow> timeval) \<Rightarrow> 'r \<Rightarrow> 'r jsmap \<Rightarrow> 'r jsmap" where
  "merge_step key stamp w m =
     (case map_get m (key w) of
        None \<Rightarrow> map_set m (key w) w
      | Some e \<Rightarrow> if date_gt (stamp w) (stamp e) then map_set m (key w) w else m)"

definition merged_map :: "('r \<Rightarrow> jsval) \<Rightarrow> ('r \<Rightarrow> timeval) \<Rightarrow> 'r list \<Rightarrow> 'r list \<Rightarrow> 'r jsmap" where
  "merged_map key stamp l r = fold (merge_step key stamp) r (fold (put_step key) l [])"

definition workout_time :: "date_parse \<Rightarrow> workout \<Rightarrow> timeval" where
  "workout_time dp w = newDate dp (js_or (updatedAt w) (date w))"

definition analysis_time :: "date_parse \<Rightarrow> analysis \<Rightarrow> timeval" where
  "analysis_time dp a = newDate dp (timestamp a)"

text \<open>Every entry of a map built by the merges is filed under the key of its value.\<close>

definition keyed :: "('r \<Rightarrow> jsval) \<Rightarrow> 'r jsmap \<Rightarrow> bool" where
  "keyed key m = (distinct (map fst m) \<and> list_all (\<lambda>(k, v). key v = k) m)"

text \<open>
  Well-formed records. A time stamp is a value that \<^verbatim>\<open>||\<close> does not skip and that
  \<^verbatim>\<open>new Date\<close> turns into a valid date (the application writes ISO strings). A well-formed
  workout has an id, a valid \<^verbatim>\<open>date\<close>, and an \<^verbatim>\<open>updatedAt\<close> that is a time stamp or is
  absent; a well-formed list has no two records with the same id.
\<close>

definition is_timestamp :: "date_parse \<Rightarrow> jsval \<Rightarrow> bool" where
  "is_timestamp dp v = (truthy v \<and> newDate dp v \<noteq> None)"

definition wf_workout :: "date_parse \<Rightarrow> workout \<Rightarrow> bool" where
  "wf_workout dp w =
     (workout_id w \<noteq> JUndefined \<and> newDate dp (date w) \<noteq> None
      \<and> (updatedAt w = JUndefined \<or> is_timestamp dp (updatedAt w)))"

definition wf_workouts :: "date_parse \<Rightarrow> workout list \<Rightarrow> bool" where
  "wf_workouts dp ws = (distinct (map workout_id ws) \<and> list_all (wf_workout dp) ws)"

definition wf_analysis :: "date_parse \<Rightarrow> analysis \<Rightarrow> bool" where
  "wf_analysis dp a = (analysis_id a \<noteq> JUndefined \<and> newDate dp (timestamp a) \<noteq> None)"

definition wf_analyses :: "date_parse \<Rightarrow> analysis list \<Rightarrow> bool" where
  "wf_analyses dp as = (distinct (map analysis_id as) \<and> list_all (wf_analysis dp) as)"

text \<open>
  The time by which two versions of a workout are compared, in the words of the
  specification: \<^verbatim>\<open>updatedAt\<close>, falling back to \<^verbatim>\<open>date\<close> when \<^verbatim>\<open>updatedAt\<close> is absent.
\<close>

definition effective_time :: "date_parse \<Rightarrow> workout \<Rightarrow> timeval" where
  "effective_time dp w = newDate dp (if updatedAt w = JUndefined then date w else updatedAt w)"

text \<open>Newest first: \<open>time_ge s t\<close> holds when both dates are valid and \<open>s\<close> is not older.\<close>

fun time_ge :: "timeval \<Rightarrow> timeval \<Rightarrow> bool" where
  "time_ge (Some x) (Some y) = (x \<ge> y)"
| "time_ge _ _ = False"

text \<open>
  \<^verbatim>\<open>Date.parse\<close> at the two strings of the specification's scenario (midnight UTC of
  2024-01-01 and of 2024-01-05); the examples below parse no other string.
\<close>

definition parse_sample :: date_parse where
  "parse_sample s =
     (if s = ''2024-01-01'' then Some 1704067200000
      else if s = ''2024-01-05'' then Some 1704412800000
      else None)"

text \<open>
  A dataset reduced to its three collections, each made present; arrays whose elements
  are all objects.
\<close>

definition three_collections :: "dataset \<Rightarrow> dataset" where
  "three_collections d =
     \<lparr>workouts = Some (or_empty (workouts d)),
      recentExercises = Some (or_empty (recentExercises d)),
      bodyAnalyses = Some (or_empty (bodyAnalyses d)),
      other_fields = []\<rparr>"

fun is_object :: "'r item \<Rightarrow> bool" where
  "is_object (Obj r) = True"
| "is_object Nullish = False"

definition arrays_of_objects :: "dataset \<Rightarrow> bool" where
  "arrays_of_objects d =
     (list_all is_object (or_empty (workouts d)) \<and> list_all is_object (or_empty (bodyAnalyses d)))"

text \<open>
  The requests of an upload of the document \<open>d\<close>, and the requests of a download.
\<close>

fun is_upload_of :: "'d \<Rightarrow> 'd request \<Rightarrow> bool" where
  "is_upload_of d (CreateFolderPUT t p) = True"
| "is_upload_of d (UploadUrlGET t p) = True"
| "is_upload_of d (FilePUT h body) = (body = d)"
| "is_upload_of d (DownloadUrlGET t p) = False"
| "is_upload_of d (FileGET h) = False"

fun is_download :: "'d request \<Rightarrow> bool" where
  "is_download (DownloadUrlGET t p) = True"
| "is_download (FileGET h) = True"
| "is_download _ = False"

subsection \<open>Sample data\<close>

text \<open>
  Records with a string id; a dataset holding workouts only; a disk that reports the folder
  as existing, hands out upload and download links and serves the document \<open>remote\<close>; and
  a disk on which the file is missing.
\<close>

definition sample_workout :: "string \<Rightarrow> jsval \<Rightarrow> jsval \<Rightarrow> string \<Rightarrow> workout" where
  "sample_workout i d u rest =
     \<lparr>workout_id = JStr i, date = d, updatedAt = u, workout_rest = rest\<rparr>"

definition sample_analysis :: "string \<Rightarrow> jsval \<Rightarrow> string \<Rightarrow> analysis" where
  "sample_analysis i t rest = \<lparr>analysis_id = JStr i, timestamp = t, analysis_rest = rest\<rparr>"

definition sample_dataset :: "workout list \<Rightarrow> dataset" where
  "sample_dataset ws =
     \<lparr>workouts = Some (map Obj ws), recentExercises = Some [], bodyAnalyses = Some [],
      other_fields = []\<rparr>"

definition sample_net :: "dataset \<Rightarrow> dataset network" where
  "sample_net remote q =
     (case q of
        CreateFolderPUT t p \<Rightarrow> Response 409 (Some (JsonInfo None))
      | UploadUrlGET t p \<Rightarrow> Response 200 (Some (JsonInfo (Some ''https://uploader/target'')))
      | FilePUT h body \<Rightarrow> Response 201 None
      | DownloadUrlGET t p \<Rightarrow> Response 200 (Some (JsonInfo (Some ''https://downloader/file'')))
      | FileGET h \<Rightarrow> Response 200 (Some (JsonData remote)))"

definition missing_file_net :: "dataset network" where
  "missing_file_net q =
     (case q of DownloadUrlGET t p \<Rightarrow> Response 404 None | _ \<Rightarrow> Rejected)"

section \<open>Properties\<close>

subsection \<open>Recent exercises\<close>

lemma fold_set_add:
  "fold (\<lambda>x s. set_add s x) xs acc = acc @ dedupe_first (filter (\<lambda>y. y \<notin> set acc) xs)"
proof (induction xs arbitrary: acc)
  case Nil
  show ?case by simp
next
  case (Cons x xs)
  show ?case
  proof (cases "x \<in> set acc")
    case True
    then show ?thesis using Cons.IH [of acc] by (simp add: set_add_def)
  next
    case False
    have "filter (\<lambda>y. y \<notin> set (acc @ [x])) xs = filter (\<lambda>y. y \<noteq> x) (filter (\<lambda>y. y \<notin> set acc) xs)"
      by (induction xs) auto
    then show ?thesis using False Cons.IH [of "acc @ [x]"] by (simp add: set_add_def)
  qed
qed

lemma set_dedupe_first: "set (dedupe_first xs) = set xs"
  by (induction xs rule: dedupe_first.induct) auto

lemma distinct_dedupe_first: "distinct (dedupe_first xs)"
  by (induction xs rule: dedupe_first.induct) (auto simp: set_dedupe_first)

text \<open>
  C6. \<open>mergeRecentExercises local remote\<close> is the concatenation of local then remote,
  deduplicated keeping first occurrences, cut to its first 10 elements; so it has at most
  10 entries, no duplicates, and on \<open>["x","y"]\<close> and \<open>["y","z"]\<close> it gives \<open>["x","y","z"]\<close>.
\<close>

theorem mergeRecentExercises_dedupe_take10:
  "mergeRecentExercises l r = take 10 (dedupe_first (l @ r))
   \<and> length (mergeRecentExercises l r) \<le> 10
   \<and> distinct (mergeRecentExercises l r)
   \<and> mergeRecentExercises [''x'', ''y''] [''y'', ''z''] = [''x'', ''y'', ''z'']"
proof -
  have eq: "mergeRecentExercises l' r' = take 10 (dedupe_first (l' @ r'))" for l' r' :: "'b list"
    unfolding mergeRecentExercises_def fold_set_add by simp
  have ex: "mergeRecentExercises [''x'', ''y''] [''y'', ''z''] = [''x'', ''y'', ''z'']"
    by (simp add: eq)
  show ?thesis
    using eq [of l r] ex by (simp add: distinct_dedupe_first)
qed

subsection \<open>Maps\<close>

lemma map_get_map_set: "map_get (map_set m k v) k' = (if k' = k then Some v else map_get m k')"
  by (induction m) auto

lemma map_fst_map_set:
  "map fst (map_set m k v) = (if k \<in> fst ` set m then map fst m else map fst m @ [k])"
  by (induction m) (fastforce split: if_splits)+

lemma set_map_set: "set (map_set m k v) \<subseteq> insert (k, v) (set m)"
  by (induction m) (auto split: if_splits)

lemma map_get_None_iff: "map_get m k = None \<longleftrightarrow> k \<notin> fst ` set m"
  by (induction m) (fastforce split: if_splits)+

lemma map_get_Some_mem: "map_get m k = Some v \<Longrightarrow> (k, v) \<in> set m"
  by (induction m) (auto split: if_splits)

lemma keyed_Nil: "keyed key []"
  by (simp add: keyed_def)

lemma keyed_map_set: "keyed key m \<Longrightarrow> keyed key (map_set m (key w) w)"
proof -
  assume k: "keyed key m"
  have d: "distinct (map fst (map_set m (key w) w))"
    using k by (simp add: keyed_def map_fst_map_set)
  have "list_all (\<lambda>(k, v). key v = k) (map_set m (key w) w)"
    using k set_map_set [of m "key w" w] by (auto simp: keyed_def list_all_iff)
  with d show ?thesis by (simp add: keyed_def)
qed

lemma keyed_keys: "keyed key m \<Longrightarrow> map key (map_values m) = map fst m"
  by (induction m) (auto simp: keyed_def map_values_def)

lemma keyed_filter:
  "keyed key m \<Longrightarrow>
   filter (\<lambda>w. key w = k) (map_values m) = (case map_get m k of None \<Rightarrow> [] | Some v \<Rightarrow> [v])"
proof (induction m)
  case Nil
  show ?case by (simp add: map_values_def)
next
  case (Cons e m)
  obtain k' v' where e: "e = (k', v')" by (cases e)
  from Cons.prems have km: "keyed key m" and kv: "key v' = k'" and nk: "k' \<notin> fst ` set m"
    by (auto simp: keyed_def e)
  show ?case
  proof (cases "k' = k")
    case True
    with nk have "map_get m k = None" by (simp add: map_get_None_iff)
    with Cons.IH [OF km] have "filter (\<lambda>w. key w = k) (map_values m) = []" by simp
    with True kv show ?thesis by (simp add: e map_values_def)
  next
    case False
    with Cons.IH [OF km] kv show ?thesis by (simp add: e map_values_def)
  qed
qed

subsection \<open>The two loops\<close>

lemma map_get_put_step:
  "map_get (put_step key w m) k = (if k = key w then Some w else map_get m k)"
  by (simp add: put_step_def map_get_map_set)

lemma map_get_merge_step:
  "map_get (merge_step key stamp w m) k =
     (if k = key w
      then (case map_get m k of
              None \<Rightarrow> Some w
            | Some e \<Rightarrow> if date_gt (stamp w) (stamp e) then Some w else Some e)
      else map_get m k)"
  by (auto simp: merge_step_def map_get_map_set split: option.splits)

lemma keyed_put_step: "keyed key m \<Longrightarrow> keyed key (put_step key w m)"
  by (simp add: put_step_def keyed_map_set)

lemma keyed_merge_step: "keyed key m \<Longrightarrow> keyed key (merge_step key stamp w m)"
  by (simp add: merge_step_def keyed_map_set split: option.splits)

lemma keyed_fold_put: "keyed key m \<Longrightarrow> keyed key (fold (put_step key) ws m)"
  by (induction ws arbitrary: m) (simp_all add: keyed_put_step)

lemma keyed_fold_merge: "keyed key m \<Longrightarrow> keyed key (fold (merge_step key stamp) ws m)"
  by (induction ws arbitrary: m) (simp_all add: keyed_merge_step)

lemma keyed_merged_map: "keyed key (merged_map key stamp l r)"
  by (simp add: merged_map_def keyed_fold_merge keyed_fold_put keyed_Nil)

lemma keys_put_step: "fst ` set (put_step key w m) = insert (key w) (fst ` set m)"
proof -
  have "set (map fst (put_step key w m)) = insert (key w) (set (map fst m))"
    unfolding put_step_def map_fst_map_set by auto
  then show ?thesis by simp
qed

lemma keys_merge_step: "fst ` set (merge_step key stamp w m) = insert (key w) (fst ` set m)"
proof (cases "map_get m (key w)")
  case None
  then have "merge_step key stamp w m = put_step key w m"
    by (simp add: merge_step_def put_step_def)
  then show ?thesis by (simp add: keys_put_step)
next
  case (Some e)
  then have "key w \<in> fst ` set m" using map_get_None_iff [of m "key w"] by simp
  then have "insert (key w) (fst ` set m) = fst ` set m" by auto
  moreover have "fst ` set (put_step key w m) = insert (key w) (fst ` set m)"
    by (rule keys_put_step)
  ultimately show ?thesis using Some by (simp add: merge_step_def put_step_def)
qed

lemma keys_fold_put: "fst ` set (fold (put_step key) ws m) = key ` set ws \<union> fst ` set m"
  by (induction ws arbitrary: m) (auto simp: keys_put_step)

lemma keys_fold_merge:
  "fst ` set (fold (merge_step key stamp) ws m) = key ` set ws \<union> fst ` set m"
  by (induction ws arbitrary: m) (auto simp: keys_merge_step)

lemma keys_merged_map: "fst ` set (merged_map key stamp l r) = key ` set l \<union> key ` set r"
  by (auto simp: merged_map_def keys_fold_merge keys_fold_put)

lemma values_put_step: "snd ` set (put_step key w m) \<subseteq> insert w (snd ` set m)"
  using set_map_set [of m "key w" w] by (force simp: put_step_def)

lemma values_merge_step: "snd ` set (merge_step key stamp w m) \<subseteq> insert w (snd ` set m)"
  using values_put_step [of key w m]
  by (auto simp: merge_step_def put_step_def split: option.splits)

lemma values_fold_put: "snd ` set (fold (put_step key) ws m) \<subseteq> set ws \<union> snd ` set m"
proof (induction ws arbitrary: m)
  case Nil show ?case by simp
next
  case (Cons w ws)
  show ?case using Cons.IH [of "put_step key w m"] values_put_step [of key w m] by auto
qed

lemma values_fold_merge:
  "snd ` set (fold (merge_step key stamp) ws m) \<subseteq> set ws \<union> snd ` set m"
proof (induction ws arbitrary: m)
  case Nil show ?case by simp
next
  case (Cons w ws)
  show ?case
    using Cons.IH [of "merge_step key stamp w m"] values_merge_step [of key stamp w m] by auto
qed

lemma values_merged_map: "set (map_values (merged_map key stamp l r)) \<subseteq> set l \<union> set r"
  using values_fold_merge [of key stamp r "fold (put_step key) l []"] values_fold_put [of key l "[]"]
  by (auto simp: merged_map_def map_values_def)

text \<open>Lookups after the loops, by the records of the list that carry the key.\<close>

lemma get_fold_put_none:
  "filter (\<lambda>w. key w = k) ws = [] \<Longrightarrow> map_get (fold (put_step key) ws m) k = map_get m k"
  by (induction ws arbitrary: m) (auto simp: map_get_put_step split: if_splits)

lemma get_fold_put_one:
  "filter (\<lambda>w. key w = k) ws = [w] \<Longrightarrow> map_get (fold (put_step key) ws m) k = Some w"
proof (induction ws arbitrary: m)
  case Nil then show ?case by simp
next
  case (Cons x ws)
  show ?case
  proof (cases "key x = k")
    case True
    with Cons.prems have "x = w" and "filter (\<lambda>w. key w = k) ws = []" by simp_all
    then show ?thesis using True by (simp add: get_fold_put_none map_get_put_step)
  next
    case False
    with Cons.prems have "filter (\<lambda>w. key w = k) ws = [w]" by simp
    then show ?thesis using Cons.IH by simp
  qed
qed

lemma get_fold_merge_none:
  "filter (\<lambda>w. key w = k) ws = [] \<Longrightarrow>
   map_get (fold (merge_step key stamp) ws m) k = map_get m k"
  by (induction ws arbitrary: m) (auto simp: map_get_merge_step split: if_splits)

lemma get_fold_merge_one:
  "filter (\<lambda>w. key w = k) ws = [w] \<Longrightarrow>
   map_get (fold (merge_step key stamp) ws m) k = map_get (merge_step key stamp w m) k"
proof (induction ws arbitrary: m)
  case Nil then show ?case by simp
next
  case (Cons x ws)
  show ?case
  proof (cases "key x = k")
    case True
    with Cons.prems have "x = w" and "filter (\<lambda>w. key w = k) ws = []" by simp_all
    then show ?thesis by (simp add: get_fold_merge_none)
  next
    case False
    with Cons.prems have f: "filter (\<lambda>w. key w = k) ws = [w]" by simp
    then have "w \<in> set (filter (\<lambda>w. key w = k) ws)" by simp
    then have kw: "key w = k" by simp
    have "map_get (fold (merge_step key stamp) ws (merge_step key stamp x m)) k
          = map_get (merge_step key stamp w (merge_step key stamp x m)) k"
      using Cons.IH [OF f] .
    also have "\<dots> = map_get (merge_step key stamp w m) k"
      using False kw by (simp add: map_get_merge_step)
    finally show ?thesis by simp
  qed
qed

lemma filter_key_absent: "k \<notin> key ` set ws \<Longrightarrow> filter (\<lambda>x. key x = k) ws = []"
  by (induction ws) auto

lemma filter_key_distinct:
  "distinct (map key ws) \<Longrightarrow> w \<in> set ws \<Longrightarrow> filter (\<lambda>x. key x = key w) ws = [w]"
proof (induction ws)
  case Nil then show ?case by simp
next
  case (Cons x ws)
  show ?case
  proof (cases "x = w")
    case True
    with Cons.prems have "key w \<notin> key ` set ws" by simp
    then have "filter (\<lambda>x. key x = key w) ws = []" by (rule filter_key_absent)
    with True show ?thesis by simp
  next
    case False
    with Cons.prems have "w \<in> set ws" and "key x \<noteq> key w" by auto
    with Cons show ?thesis by simp
  qed
qed

subsection \<open>Sorting\<close>

lemma mset_sort_insert: "mset (sort_insert cmp a xs) = add_mset a (mset xs)"
  by (induction xs) auto

lemma mset_array_sort: "mset (array_sort cmp xs) = mset xs"
  unfolding array_sort_def by (induction xs) (simp_all add: mset_sort_insert)

lemma set_array_sort: "set (array_sort cmp xs) = set xs"
  using mset_array_sort [of cmp xs] by (metis set_mset_mset)

lemma distinct_map_array_sort:
  "distinct (map key xs) \<Longrightarrow> distinct (map key (array_sort cmp xs))"
proof -
  assume d: "distinct (map key xs)"
  have "mset (map key (array_sort cmp xs)) = mset (map key xs)"
    by (simp add: mset_array_sort)
  then show ?thesis using d by (metis mset_eq_imp_distinct_iff)
qed

lemma singleton_mset: "mset xs = {#v#} \<Longrightarrow> xs = [v]"
  by (cases xs) auto

lemma filter_array_sort_single:
  assumes "filter P xs = [v]"
  shows "filter P (array_sort cmp xs) = [v]"
proof -
  have "mset (filter P (array_sort cmp xs)) = mset (filter P xs)"
    by (simp add: mset_array_sort)
  with assms show ?thesis by (simp add: singleton_mset)
qed

lemma set_sort_insert: "set (sort_insert cmp a xs) = insert a (set xs)"
  using mset_sort_insert [of cmp a xs] by (metis set_mset_mset set_mset_add_mset_insert)

lemma sorted_sort_insert:
  assumes cmp: "\<And>a b. cmp a b = date_minus (t b) (t a)"
    and valid: "t a \<noteq> None" "\<forall>x\<in>set xs. t x \<noteq> None"
    and srt: "sorted_wrt (\<lambda>a b. time_ge (t a) (t b)) xs"
  shows "sorted_wrt (\<lambda>a b. time_ge (t a) (t b)) (sort_insert cmp a xs)"
  using valid(2) srt
proof (induction xs)
  case Nil
  show ?case by simp
next
  case (Cons b bs)
  from valid(1) obtain ta where ta: "t a = Some ta" by auto
  from Cons.prems(1) obtain tb where tb: "t b = Some tb" by auto
  have below: "\<forall>x\<in>set bs. time_ge (t b) (t x)" using Cons.prems(2) by simp
  show ?case
  proof (cases "sort_compare cmp a b \<le> 0")
    case True
    then have ab: "ta \<ge> tb" by (simp add: sort_compare_def cmp ta tb)
    have "time_ge (t a) (t x)" if "x \<in> set bs" for x
    proof -
      from that Cons.prems(1) obtain tx where tx: "t x = Some tx" by auto
      from below that have "tb \<ge> tx" by (auto simp: tb tx)
      with ab show ?thesis by (simp add: ta tx)
    qed
    with True ab Cons.prems(2) show ?thesis by (simp add: ta tb)
  next
    case False
    then have ba: "time_ge (t b) (t a)" by (simp add: sort_compare_def cmp ta tb)
    have "sorted_wrt (\<lambda>a b. time_ge (t a) (t b)) (sort_insert cmp a bs)"
      using Cons.IH Cons.prems by simp
    with False ba below show ?thesis by (simp add: set_sort_insert)
  qed
qed

lemma sorted_array_sort:
  assumes cmp: "\<And>a b. cmp a b = date_minus (t b) (t a)"
    and valid: "\<forall>x\<in>set xs. t x \<noteq> None"
  shows "sorted_wrt (\<lambda>a b. time_ge (t a) (t b)) (array_sort cmp xs)"
  using valid
proof (induction xs)
  case Nil
  show ?case by (simp add: array_sort_def)
next
  case (Cons x xs)
  have s: "sorted_wrt (\<lambda>a b. time_ge (t a) (t b)) (array_sort cmp xs)"
    using Cons by simp
  have v: "\<forall>y\<in>set (array_sort cmp xs). t y \<noteq> None"
    using Cons.prems by (simp add: set_array_sort)
  have "t x \<noteq> None" using Cons.prems by simp
  from sorted_sort_insert [of cmp t x, OF cmp this v s]
  show ?case by (simp add: array_sort_def)
qed

subsection \<open>Merging arrays of objects\<close>

lemma forEach_addLocalWorkout:
  "forEach (map Obj ws) addLocalWorkout m = Inr (fold (put_step workout_id) ws m)"
  by (induction ws arbitrary: m) (simp_all add: addLocalWorkout_def put_step_def)

lemma forEach_mergeRemoteWorkout:
  "forEach (map Obj ws) (mergeRemoteWorkout dp) m
   = Inr (fold (merge_step workout_id (workout_time dp)) ws m)"
  by (induction ws arbitrary: m)
     (simp_all add: mergeRemoteWorkout_def merge_step_def workout_time_def Let_def
        split: option.splits)

lemma mergeWorkouts_objects:
  "mergeWorkouts dp (map Obj l) (map Obj r)
   = Inr (array_sort (compareWorkouts dp)
            (map_values (merged_map workout_id (workout_time dp) l r)))"
  by (simp add: mergeWorkouts_def forEach_addLocalWorkout forEach_mergeRemoteWorkout
      merged_map_def)

lemma forEach_addLocalAnalysis:
  "forEach (map Obj ws) addLocalAnalysis m = Inr (fold (put_step analysis_id) ws m)"
  by (induction ws arbitrary: m) (simp_all add: addLocalAnalysis_def put_step_def)

lemma forEach_mergeRemoteAnalysis:
  "forEach (map Obj ws) (mergeRemoteAnalysis dp) m
   = Inr (fold (merge_step analysis_id (analysis_time dp)) ws m)"
  by (induction ws arbitrary: m)
     (simp_all add: mergeRemoteAnalysis_def merge_step_def analysis_time_def Let_def
        split: option.splits)

lemma mergeBodyAnalyses_objects:
  "mergeBodyAnalyses dp (map Obj l) (map Obj r)
   = Inr (array_sort (compareAnalyses dp)
            (map_values (merged_map analysis_id (analysis_time dp) l r)))"
  by (simp add: mergeBodyAnalyses_def forEach_addLocalAnalysis forEach_mergeRemoteAnalysis
      merged_map_def)

subsection \<open>The merged list\<close>

lemma merged_distinct:
  "distinct (map key (array_sort cmp (map_values (merged_map key stamp l r))))"
proof -
  have "keyed key (merged_map key stamp l r)" by (rule keyed_merged_map)
  then have "distinct (map key (map_values (merged_map key stamp l r)))"
    by (simp add: keyed_keys) (simp add: keyed_def)
  then show ?thesis by (rule distinct_map_array_sort)
qed

lemma merged_keys:
  "key ` set (array_sort cmp (map_values (merged_map key stamp l r))) = key ` set l \<union> key ` set r"
proof -
  have "set (map key (map_values (merged_map key stamp l r))) = key ` set l \<union> key ` set r"
    using keys_merged_map [of key stamp l r] keyed_keys [OF keyed_merged_map, of key stamp l r]
    by simp
  then show ?thesis by (simp add: set_array_sort)
qed

lemma merged_subset:
  "set (array_sort cmp (map_values (merged_map key stamp l r))) \<subseteq> set l \<union> set r"
  by (simp add: set_array_sort values_merged_map)

lemma merged_filter:
  "map_get (merged_map key stamp l r) k = Some v \<Longrightarrow>
   filter (\<lambda>w. key w = k) (array_sort cmp (map_values (merged_map key stamp l r))) = [v]"
  by (rule filter_array_sort_single) (simp add: keyed_filter [OF keyed_merged_map])

lemma merged_get_both:
  assumes "filter (\<lambda>w. key w = k) l = [a]" and "filter (\<lambda>w. key w = k) r = [b]"
  shows "map_get (merged_map key stamp l r) k
         = Some (if date_gt (stamp b) (stamp a) then b else a)"
proof -
  have "b \<in> set (filter (\<lambda>w. key w = k) r)" using assms(2) by simp
  then have kb: "key b = k" by simp
  show ?thesis
    unfolding merged_map_def get_fold_merge_one [OF assms(2)]
    by (simp add: map_get_merge_step kb get_fold_put_one [OF assms(1)])
qed

lemma merged_get_local:
  assumes "filter (\<lambda>w. key w = k) l = [a]" and "filter (\<lambda>w. key w = k) r = []"
  shows "map_get (merged_map key stamp l r) k = Some a"
  unfolding merged_map_def get_fold_merge_none [OF assms(2)]
  by (rule get_fold_put_one [OF assms(1)])

lemma merged_get_remote:
  assumes "filter (\<lambda>w. key w = k) l = []" and "filter (\<lambda>w. key w = k) r = [b]"
  shows "map_get (merged_map key stamp l r) k = Some b"
proof -
  have "b \<in> set (filter (\<lambda>w. key w = k) r)" using assms(2) by simp
  then have kb: "key b = k" by simp
  show ?thesis
    unfolding merged_map_def get_fold_merge_one [OF assms(2)]
    by (simp add: map_get_merge_step kb get_fold_put_none [OF assms(1)])
qed

lemma map_set_fresh: "k \<notin> fst ` set m \<Longrightarrow> map_set m k v = m @ [(k, v)]"
  by (induction m) auto

lemma fold_put_distinct:
  "distinct (map key ws) \<Longrightarrow> key ` set ws \<inter> fst ` set m = {} \<Longrightarrow>
   fold (put_step key) ws m = m @ map (\<lambda>w. (key w, w)) ws"
proof (induction ws arbitrary: m)
  case Nil
  show ?case by simp
next
  case (Cons w ws)
  from Cons.prems have fresh: "key w \<notin> fst ` set m" by auto
  then have p: "put_step key w m = m @ [(key w, w)]" by (simp add: put_step_def map_set_fresh)
  have "key ` set ws \<inter> fst ` set (m @ [(key w, w)]) = {}" using Cons.prems by auto
  with Cons.IH [of "m @ [(key w, w)]"] Cons.prems(1) p show ?case by simp
qed

lemma date_gt_irrefl: "\<not> date_gt s s"
  by (cases s) simp_all

lemma fold_merge_same:
  "\<forall>w\<in>set ws. map_get m (key w) = Some w \<Longrightarrow> fold (merge_step key stamp) ws m = m"
  by (induction ws) (simp_all add: merge_step_def date_gt_irrefl)

lemma merged_map_same:
  assumes "distinct (map key xs)"
  shows "map_values (merged_map key stamp xs xs) = xs"
proof -
  have p: "fold (put_step key) xs [] = map (\<lambda>w. (key w, w)) xs"
    using fold_put_distinct [OF assms, of "[]"] by simp
  have "map_get (fold (put_step key) xs []) (key w) = Some w" if "w \<in> set xs" for w
    using get_fold_put_one [OF filter_key_distinct [OF assms that]] .
  then have "fold (merge_step key stamp) xs (fold (put_step key) xs []) = fold (put_step key) xs []"
    by (intro fold_merge_same) simp
  then show ?thesis by (simp add: merged_map_def p map_values_def comp_def)
qed

subsection \<open>Evaluation on samples\<close>

lemmas sample_eval =
  sample_workout_def sample_analysis_def parse_sample_def
  wf_workouts_def wf_workout_def wf_analyses_def wf_analysis_def is_timestamp_def TimeClip_def

lemmas merge_eval =
  mergeWorkouts_def addLocalWorkout_def mergeRemoteWorkout_def compareWorkouts_def
  mergeBodyAnalyses_def addLocalAnalysis_def mergeRemoteAnalysis_def compareAnalyses_def
  array_sort_def sort_compare_def map_values_def js_or_def Let_def

lemmas sync_eval =
  syncData_def createFolder_def uploadFile_def loadData_def downloadFile_def get_href_def
  response_ok_def lastIndexOf_def substring_def sample_net_def sample_dataset_def
  missing_file_net_def Let_def

subsection \<open>The merge of workouts and of body analyses\<close>

lemma wf_workout_time: "wf_workout dp w \<Longrightarrow> workout_time dp w = effective_time dp w"
  by (auto simp: wf_workout_def workout_time_def effective_time_def js_or_def is_timestamp_def)

text \<open>
  An \<^verbatim>\<open>updatedAt\<close> that is present but falsy (\<open>0\<close>, \<^verbatim>\<open>null\<close>, \<^verbatim>\<open>false\<close>, the empty
  string) is passed over by \<^verbatim>\<open>||\<close> like an absent one; such a value is not a time stamp of
  a well-formed workout.
\<close>

lemma falsy_updatedAt_skipped:
  "\<not> truthy (updatedAt w) \<Longrightarrow> workout_time dp w = newDate dp (date w)"
  by (simp add: workout_time_def js_or_def)

lemma wf_workouts_mem: "wf_workouts dp ws \<Longrightarrow> w \<in> set ws \<Longrightarrow> wf_workout dp w"
  by (simp add: wf_workouts_def list_all_iff)

lemma wf_analyses_mem: "wf_analyses dp as \<Longrightarrow> a \<in> set as \<Longrightarrow> wf_analysis dp a"
  by (simp add: wf_analyses_def list_all_iff)

text \<open>
  C1. For well-formed lists, when a local and a remote record share an id, the merged list
  holds exactly one record with that id: the remote one if its time (\<^verbatim>\<open>updatedAt\<close>, or
  \<^verbatim>\<open>date\<close> when \<^verbatim>\<open>updatedAt\<close> is absent) is strictly later, the local one otherwise, so
  also on a tie. For body analyses the same holds with \<^verbatim>\<open>timestamp\<close>.
\<close>

theorem later_version_wins:
  "(wf_workouts dp lw \<and> wf_workouts dp rw \<and> l \<in> set lw \<and> r \<in> set rw
      \<and> workout_id l = workout_id r \<longrightarrow>
      (\<exists>merged. mergeWorkouts dp (map Obj lw) (map Obj rw) = Inr merged
         \<and> filter (\<lambda>w. workout_id w = workout_id l) merged
             = [if date_gt (effective_time dp r) (effective_time dp l) then r else l]))
   \<and> (wf_analyses dp la \<and> wf_analyses dp ra \<and> a \<in> set la \<and> b \<in> set ra
      \<and> analysis_id a = analysis_id b \<longrightarrow>
      (\<exists>merged. mergeBodyAnalyses dp (map Obj la) (map Obj ra) = Inr merged
         \<and> filter (\<lambda>x. analysis_id x = analysis_id a) merged
             = [if date_gt (newDate dp (timestamp b)) (newDate dp (timestamp a)) then b else a]))"
proof (intro conjI impI)
  assume h: "wf_workouts dp lw \<and> wf_workouts dp rw \<and> l \<in> set lw \<and> r \<in> set rw
      \<and> workout_id l = workout_id r"
  then have dl: "distinct (map workout_id lw)" and dr: "distinct (map workout_id rw)"
    and ml: "l \<in> set lw" and mr: "r \<in> set rw"
    by (simp_all add: wf_workouts_def)
  have fl: "filter (\<lambda>w. workout_id w = workout_id l) lw = [l]"
    using dl ml by (rule filter_key_distinct)
  have "filter (\<lambda>w. workout_id w = workout_id r) rw = [r]"
    using dr mr by (rule filter_key_distinct)
  with h have fr: "filter (\<lambda>w. workout_id w = workout_id l) rw = [r]" by simp
  from h have "wf_workout dp l" "wf_workout dp r"
    by (blast intro: wf_workouts_mem)+
  then have "workout_time dp l = effective_time dp l" "workout_time dp r = effective_time dp r"
    by (simp_all add: wf_workout_time)
  with merged_get_both [OF fl fr, of "workout_time dp"]
  have "map_get (merged_map workout_id (workout_time dp) lw rw) (workout_id l)
        = Some (if date_gt (effective_time dp r) (effective_time dp l) then r else l)"
    by simp
  from merged_filter [OF this, of "compareWorkouts dp"]
  show "\<exists>merged. mergeWorkouts dp (map Obj lw) (map Obj rw) = Inr merged
         \<and> filter (\<lambda>w. workout_id w = workout_id l) merged
             = [if date_gt (effective_time dp r) (effective_time dp l) then r else l]"
    by (simp add: mergeWorkouts_objects)
next
  assume h: "wf_analyses dp la \<and> wf_analyses dp ra \<and> a \<in> set la \<and> b \<in> set ra
      \<and> analysis_id a = analysis_id b"
  then have dl: "distinct (map analysis_id la)" and dr: "distinct (map analysis_id ra)"
    and ml: "a \<in> set la" and mr: "b \<in> set ra"
    by (simp_all add: wf_analyses_def)
  have fl: "filter (\<lambda>x. analysis_id x = analysis_id a) la = [a]"
    using dl ml by (rule filter_key_distinct)
  have "filter (\<lambda>x. analysis_id x = analysis_id b) ra = [b]"
    using dr mr by (rule filter_key_distinct)
  with h have fr: "filter (\<lambda>x. analysis_id x = analysis_id a) ra = [b]" by simp
  from merged_get_both [OF fl fr, of "analysis_time dp"]
  have "map_get (merged_map analysis_id (analysis_time dp) la ra) (analysis_id a)
        = Some (if date_gt (newDate dp (timestamp b)) (newDate dp (timestamp a)) then b else a)"
    by (simp add: analysis_time_def)
  from merged_filter [OF this, of "compareAnalyses dp"]
  show "\<exists>merged. mergeBodyAnalyses dp (map Obj la) (map Obj ra) = Inr merged
         \<and> filter (\<lambda>x. analysis_id x = analysis_id a) merged
             = [if date_gt (newDate dp (timestamp b)) (newDate dp (timestamp a)) then b else a]"
    by (simp add: mergeBodyAnalyses_objects)
qed

theorem later_version_wins_witness:
  "wf_workouts parse_sample
     [sample_workout ''a'' (JStr ''2024-01-01'') (JStr ''2024-01-01'') ''local'']
   \<and> wf_workouts parse_sample
     [sample_workout ''a'' (JStr ''2024-01-01'') (JStr ''2024-01-05'') ''remote'']
   \<and> mergeWorkouts parse_sample
       [Obj (sample_workout ''a'' (JStr ''2024-01-01'') (JStr ''2024-01-01'') ''local'')]
       [Obj (sample_workout ''a'' (JStr ''2024-01-01'') (JStr ''2024-01-05'') ''remote'')]
     = Inr [sample_workout ''a'' (JStr ''2024-01-01'') (JStr ''2024-01-05'') ''remote'']
   \<and> wf_analyses parse_sample [sample_analysis ''b'' (JStr ''2024-01-05'') ''local'']
   \<and> wf_analyses parse_sample [sample_analysis ''b'' (JStr ''2024-01-05'') ''remote'']
   \<and> mergeBodyAnalyses parse_sample
       [Obj (sample_analysis ''b'' (JStr ''2024-01-05'') ''local'')]
       [Obj (sample_analysis ''b'' (JStr ''2024-01-05'') ''remote'')]
     = Inr [sample_analysis ''b'' (JStr ''2024-01-05'') ''local'']"
  using later_version_wins [of parse_sample
      "[sample_workout ''a'' (JStr ''2024-01-01'') (JStr ''2024-01-01'') ''local'']"
      "[sample_workout ''a'' (JStr ''2024-01-01'') (JStr ''2024-01-05'') ''remote'']"
      "sample_workout ''a'' (JStr ''2024-01-01'') (JStr ''2024-01-01'') ''local''"
      "sample_workout ''a'' (JStr ''2024-01-01'') (JStr ''2024-01-05'') ''remote''"
      "[sample_analysis ''b'' (JStr ''2024-01-05'') ''local'']"
      "[sample_analysis ''b'' (JStr ''2024-01-05'') ''remote'']"
      "sample_analysis ''b'' (JStr ''2024-01-05'') ''local''"
      "sample_analysis ''b'' (JStr ''2024-01-05'') ''remote''"]
  by (simp add: sample_eval merge_eval)

text \<open>
  C3. For well-formed lists the ids of the merged list are the ids of local together with
  the ids of remote, and a record whose id occurs on one side only is in the merged list.
\<close>

theorem merge_keeps_every_id:
  assumes "wf_workouts dp lw" and "wf_workouts dp rw"
  shows "\<exists>merged. mergeWorkouts dp (map Obj lw) (map Obj rw) = Inr merged
           \<and> workout_id ` set merged = workout_id ` set lw \<union> workout_id ` set rw
           \<and> (\<forall>w\<in>set lw. workout_id w \<notin> workout_id ` set rw \<longrightarrow> w \<in> set merged)
           \<and> (\<forall>w\<in>set rw. workout_id w \<notin> workout_id ` set lw \<longrightarrow> w \<in> set merged)"
proof -
  let ?M = "merged_map workout_id (workout_time dp) lw rw"
  let ?res = "array_sort (compareWorkouts dp) (map_values ?M)"
  from assms have dl: "distinct (map workout_id lw)" and dr: "distinct (map workout_id rw)"
    by (simp_all add: wf_workouts_def)
  have mem: "w \<in> set ?res" if "map_get ?M (workout_id w) = Some w" for w
  proof -
    from merged_filter [OF that, of "compareWorkouts dp"]
    have "w \<in> set (filter (\<lambda>x. workout_id x = workout_id w) ?res)" by simp
    then show ?thesis by simp
  qed
  have "w \<in> set ?res" if "w \<in> set lw" "workout_id w \<notin> workout_id ` set rw" for w
    using that
    by (intro mem merged_get_local filter_key_distinct [OF dl] filter_key_absent)
  moreover have "w \<in> set ?res" if "w \<in> set rw" "workout_id w \<notin> workout_id ` set lw" for w
    using that
    by (intro mem merged_get_remote filter_key_distinct [OF dr] filter_key_absent)
  moreover have "workout_id ` set ?res = workout_id ` set lw \<union> workout_id ` set rw"
    by (rule merged_keys)
  ultimately show ?thesis
    unfolding mergeWorkouts_objects by blast
qed

theorem merge_keeps_every_id_witness:
  "wf_workouts parse_sample [sample_workout ''a'' (JStr ''2024-01-01'') JUndefined ''local'']
   \<and> wf_workouts parse_sample [sample_workout ''b'' (JStr ''2024-01-05'') JUndefined ''remote'']
   \<and> mergeWorkouts parse_sample
        [Obj (sample_workout ''a'' (JStr ''2024-01-01'') JUndefined ''local'')]
        [Obj (sample_workout ''b'' (JStr ''2024-01-05'') JUndefined ''remote'')]
      = Inr [sample_workout ''b'' (JStr ''2024-01-05'') JUndefined ''remote'',
             sample_workout ''a'' (JStr ''2024-01-01'') JUndefined ''local'']"
  using merge_keeps_every_id [of parse_sample
      "[sample_workout ''a'' (JStr ''2024-01-01'') JUndefined ''local'']"
      "[sample_workout ''b'' (JStr ''2024-01-05'') JUndefined ''remote'']"]
  by (simp add: sample_eval merge_eval)

text \<open>
  C4. Merging a well-formed list with itself returns the records of that list, each once,
  in some order.
\<close>

theorem merge_with_itself:
  assumes "wf_workouts dp xs"
  shows "\<exists>merged. mergeWorkouts dp (map Obj xs) (map Obj xs) = Inr merged \<and> mset merged = mset xs"
proof -
  from assms have "distinct (map workout_id xs)" by (simp add: wf_workouts_def)
  then have "map_values (merged_map workout_id (workout_time dp) xs xs) = xs"
    by (rule merged_map_same)
  then show ?thesis by (simp add: mergeWorkouts_objects mset_array_sort)
qed

theorem merge_with_itself_witness:
  "wf_workouts parse_sample
     [sample_workout ''a'' (JStr ''2024-01-01'') JUndefined ''first'',
      sample_workout ''b'' (JStr ''2024-01-05'') (JStr ''2024-01-05'') ''second'']
   \<and> mergeWorkouts parse_sample
        [Obj (sample_workout ''a'' (JStr ''2024-01-01'') JUndefined ''first''),
         Obj (sample_workout ''b'' (JStr ''2024-01-05'') (JStr ''2024-01-05'') ''second'')]
        [Obj (sample_workout ''a'' (JStr ''2024-01-01'') JUndefined ''first''),
         Obj (sample_workout ''b'' (JStr ''2024-01-05'') (JStr ''2024-01-05'') ''second'')]
      = Inr [sample_workout ''b'' (JStr ''2024-01-05'') (JStr ''2024-01-05'') ''second'',
             sample_workout ''a'' (JStr ''2024-01-01'') JUndefined ''first'']"
  using merge_with_itself [of parse_sample
     "[sample_workout ''a'' (JStr ''2024-01-01'') JUndefined ''first'',
      sample_workout ''b'' (JStr ''2024-01-05'') (JStr ''2024-01-05'') ''second'']"]
  by (simp add: sample_eval merge_eval)

text \<open>
  C7. For well-formed inputs the merged workouts are in descending order of \<^verbatim>\<open>date\<close> and
  the merged body analyses in descending order of \<^verbatim>\<open>timestamp\<close>.
\<close>

theorem merged_sorted_newest_first:
  "(wf_workouts dp lw \<and> wf_workouts dp rw \<longrightarrow>
      (\<exists>merged. mergeWorkouts dp (map Obj lw) (map Obj rw) = Inr merged
         \<and> sorted_wrt (\<lambda>x y. time_ge (newDate dp (date x)) (newDate dp (date y))) merged))
   \<and> (wf_analyses dp la \<and> wf_analyses dp ra \<longrightarrow>
      (\<exists>merged. mergeBodyAnalyses dp (map Obj la) (map Obj ra) = Inr merged
         \<and> sorted_wrt (\<lambda>x y. time_ge (newDate dp (timestamp x)) (newDate dp (timestamp y)))
              merged))"
proof (intro conjI impI)
  assume h: "wf_workouts dp lw \<and> wf_workouts dp rw"
  let ?vs = "map_values (merged_map workout_id (workout_time dp) lw rw)"
  have "newDate dp (date w) \<noteq> None" if "w \<in> set ?vs" for w
  proof -
    from that values_merged_map [of workout_id "workout_time dp" lw rw]
    have "w \<in> set lw \<or> w \<in> set rw" by auto
    with h have "wf_workout dp w" by (auto intro: wf_workouts_mem)
    then show ?thesis by (simp add: wf_workout_def)
  qed
  then have "\<forall>w\<in>set ?vs. newDate dp (date w) \<noteq> None" by blast
  from sorted_array_sort [of "compareWorkouts dp" "\<lambda>w. newDate dp (date w)", OF _ this]
  show "\<exists>merged. mergeWorkouts dp (map Obj lw) (map Obj rw) = Inr merged
         \<and> sorted_wrt (\<lambda>x y. time_ge (newDate dp (date x)) (newDate dp (date y))) merged"
    by (simp add: mergeWorkouts_objects compareWorkouts_def)
next
  assume h: "wf_analyses dp la \<and> wf_analyses dp ra"
  let ?vs = "map_values (merged_map analysis_id (analysis_time dp) la ra)"
  have "newDate dp (timestamp a) \<noteq> None" if "a \<in> set ?vs" for a
  proof -
    from that values_merged_map [of analysis_id "analysis_time dp" la ra]
    have "a \<in> set la \<or> a \<in> set ra" by auto
    with h have "wf_analysis dp a" by (auto intro: wf_analyses_mem)
    then show ?thesis by (simp add: wf_analysis_def)
  qed
  then have "\<forall>a\<in>set ?vs. newDate dp (timestamp a) \<noteq> None" by blast
  from sorted_array_sort [of "compareAnalyses dp" "\<lambda>a. newDate dp (timestamp a)", OF _ this]
  show "\<exists>merged. mergeBodyAnalyses dp (map Obj la) (map Obj ra) = Inr merged
         \<and> sorted_wrt (\<lambda>x y. time_ge (newDate dp (timestamp x)) (newDate dp (timestamp y)))
              merged"
    by (simp add: mergeBodyAnalyses_objects compareAnalyses_def)
qed

theorem merged_sorted_newest_first_witness:
  "wf_workouts parse_sample
     [sample_workout ''a'' (JStr ''2024-01-01'') JUndefined ''older'',
      sample_workout ''c'' (JNum 1704240000000) JUndefined ''middle'']
   \<and> wf_workouts parse_sample [sample_workout ''b'' (JStr ''2024-01-05'') JUndefined ''newer'']
   \<and> mergeWorkouts parse_sample
        [Obj (sample_workout ''a'' (JStr ''2024-01-01'') JUndefined ''older''),
         Obj (sample_workout ''c'' (JNum 1704240000000) JUndefined ''middle'')]
        [Obj (sample_workout ''b'' (JStr ''2024-01-05'') JUndefined ''newer'')]
      = Inr [sample_workout ''b'' (JStr ''2024-01-05'') JUndefined ''newer'',
             sample_workout ''c'' (JNum 1704240000000) JUndefined ''middle'',
             sample_workout ''a'' (JStr ''2024-01-01'') JUndefined ''older'']
   \<and> wf_analyses parse_sample [sample_analysis ''p'' (JStr ''2024-01-01'') ''older'']
   \<and> wf_analyses parse_sample [sample_analysis ''q'' (JStr ''2024-01-05'') ''newer'']
   \<and> mergeBodyAnalyses parse_sample
        [Obj (sample_analysis ''p'' (JStr ''2024-01-01'') ''older'')]
        [Obj (sample_analysis ''q'' (JStr ''2024-01-05'') ''newer'')]
      = Inr [sample_analysis ''q'' (JStr ''2024-01-05'') ''newer'',
             sample_analysis ''p'' (JStr ''2024-01-01'') ''older'']"
  using merged_sorted_newest_first [of parse_sample
     "[sample_workout ''a'' (JStr ''2024-01-01'') JUndefined ''older'',
       sample_workout ''c'' (JNum 1704240000000) JUndefined ''middle'']"
     "[sample_workout ''b'' (JStr ''2024-01-05'') JUndefined ''newer'']"
     "[sample_analysis ''p'' (JStr ''2024-01-01'') ''older'']"
     "[sample_analysis ''q'' (JStr ''2024-01-05'') ''newer'']"]
  by (simp add: sample_eval merge_eval)

text \<open>
  C9. Whatever the records of the input arrays hold, and however often an id is repeated
  within one array, both merges return, and the merged list has no two records with the
  same id.
\<close>

theorem one_record_per_id:
  "(\<exists>merged. mergeWorkouts dp (map Obj lw) (map Obj rw) = Inr merged
       \<and> distinct (map workout_id merged))
   \<and> (\<exists>merged. mergeBodyAnalyses dp (map Obj la) (map Obj ra) = Inr merged
       \<and> distinct (map analysis_id merged))"
  by (simp add: mergeWorkouts_objects mergeBodyAnalyses_objects merged_distinct)

lemma merged_single:
  assumes "filter (\<lambda>x. key x = key w) (l @ r) = [w]"
  shows "w \<in> set (array_sort cmp (map_values (merged_map key stamp l r)))"
proof -
  from assms have "filter (\<lambda>x. key x = key w) l @ filter (\<lambda>x. key x = key w) r = [w]"
    by simp
  then have "filter (\<lambda>x. key x = key w) l = [w] \<and> filter (\<lambda>x. key x = key w) r = []
             \<or> filter (\<lambda>x. key x = key w) l = [] \<and> filter (\<lambda>x. key x = key w) r = [w]"
    by (auto simp: append_eq_Cons_conv)
  then have "map_get (merged_map key stamp l r) (key w) = Some w"
    by (auto intro: merged_get_local merged_get_remote)
  from merged_filter [OF this, of cmp]
  have "w \<in> set (filter (\<lambda>x. key x = key w)
                    (array_sort cmp (map_values (merged_map key stamp l r))))"
    by simp
  then show ?thesis by simp
qed

lemma merged_summary:
  assumes "res = array_sort cmp (map_values (merged_map key stamp l r))"
  shows "set res \<subseteq> set l \<union> set r \<and> key ` set res = key ` set l \<union> key ` set r
      \<and> distinct (map key res)
      \<and> (\<forall>w\<in>set l \<union> set r. filter (\<lambda>x. key x = key w) (l @ r) = [w] \<longrightarrow> w \<in> set res)"
  unfolding assms
  by (intro conjI ballI impI merged_subset merged_keys merged_distinct merged_single)

text \<open>
  C8, as the code has it. On arrays of objects both merges return without throwing,
  whatever properties the records lack. A missing id is the key \<^verbatim>\<open>undefined\<close>, one key like
  any other: the merged list consists of input records, holds exactly one record for every
  id value of the inputs, and holds every record that is the only one of its id value.
\<close>

theorem records_filed_by_id_value:
  "(\<exists>merged. mergeWorkouts dp (map Obj lw) (map Obj rw) = Inr merged
       \<and> set merged \<subseteq> set lw \<union> set rw
       \<and> workout_id ` set merged = workout_id ` set lw \<union> workout_id ` set rw
       \<and> distinct (map workout_id merged)
       \<and> (\<forall>w\<in>set lw \<union> set rw.
             filter (\<lambda>x. workout_id x = workout_id w) (lw @ rw) = [w] \<longrightarrow> w \<in> set merged))
   \<and> (\<exists>merged. mergeBodyAnalyses dp (map Obj la) (map Obj ra) = Inr merged
       \<and> set merged \<subseteq> set la \<union> set ra
       \<and> analysis_id ` set merged = analysis_id ` set la \<union> analysis_id ` set ra
       \<and> distinct (map analysis_id merged)
       \<and> (\<forall>a\<in>set la \<union> set ra.
             filter (\<lambda>x. analysis_id x = analysis_id a) (la @ ra) = [a] \<longrightarrow> a \<in> set merged))"
  unfolding mergeWorkouts_objects mergeBodyAnalyses_objects
  using merged_summary [OF refl, where key = workout_id and cmp = "compareWorkouts dp"
               and stamp = "workout_time dp" and l = lw and r = rw]
    merged_summary [OF refl, where key = analysis_id and cmp = "compareAnalyses dp"
               and stamp = "analysis_time dp" and l = la and r = ra]
  by simp

theorem records_filed_by_id_value_witness:
  "filter (\<lambda>x. workout_id x = JUndefined)
     ([\<lparr>workout_id = JUndefined, date = JUndefined, updatedAt = JUndefined,
        workout_rest = ''no fields''\<rparr>]
      @ [sample_workout ''a'' (JNum 1000) JUndefined ''remote''])
   = [\<lparr>workout_id = JUndefined, date = JUndefined, updatedAt = JUndefined,
        workout_rest = ''no fields''\<rparr>]
   \<and> mergeWorkouts parse_sample
       [Obj \<lparr>workout_id = JUndefined, date = JUndefined, updatedAt = JUndefined,
             workout_rest = ''no fields''\<rparr>]
       [Obj (sample_workout ''a'' (JNum 1000) JUndefined ''remote'')]
     = Inr [\<lparr>workout_id = JUndefined, date = JUndefined, updatedAt = JUndefined,
              workout_rest = ''no fields''\<rparr>,
            sample_workout ''a'' (JNum 1000) JUndefined ''remote'']
   \<and> filter (\<lambda>x. analysis_id x = JUndefined)
       ([] @ [\<lparr>analysis_id = JUndefined, timestamp = JUndefined, analysis_rest = ''bare''\<rparr>])
     = [\<lparr>analysis_id = JUndefined, timestamp = JUndefined, analysis_rest = ''bare''\<rparr>]
   \<and> mergeBodyAnalyses parse_sample []
       [Obj \<lparr>analysis_id = JUndefined, timestamp = JUndefined, analysis_rest = ''bare''\<rparr>]
     = Inr [\<lparr>analysis_id = JUndefined, timestamp = JUndefined, analysis_rest = ''bare''\<rparr>]"
  using records_filed_by_id_value [of parse_sample
      "[\<lparr>workout_id = JUndefined, date = JUndefined, updatedAt = JUndefined,
         workout_rest = ''no fields''\<rparr>]"
      "[sample_workout ''a'' (JNum 1000) JUndefined ''remote'']"
      "[]"
      "[\<lparr>analysis_id = JUndefined, timestamp = JUndefined, analysis_rest = ''bare''\<rparr>]"]
  by (simp add: sample_eval merge_eval)

text \<open>
  As first written, with every malformed record inserted, the property fails: of two local
  workouts without id the second takes the place of the first under the key
  \<^verbatim>\<open>undefined\<close>, and the first is not in the result.
\<close>

theorem record_without_id_dropped:
  "mergeWorkouts parse_sample
     [Obj \<lparr>workout_id = JUndefined, date = JStr ''2024-01-05'', updatedAt = JUndefined,
           workout_rest = ''first''\<rparr>,
      Obj \<lparr>workout_id = JUndefined, date = JStr ''2024-01-01'', updatedAt = JUndefined,
           workout_rest = ''second''\<rparr>]
     []
   = Inr [\<lparr>workout_id = JUndefined, date = JStr ''2024-01-01'', updatedAt = JUndefined,
           workout_rest = ''second''\<rparr>]"
  by (simp add: merge_eval)

text \<open>An element \<^verbatim>\<open>null\<close> makes the first loop throw when it reads \<^verbatim>\<open>workout.id\<close>.\<close>

lemma mergeWorkouts_null_element: "mergeWorkouts dp (Nullish # l) r = Inl TypeError"
  by (simp add: mergeWorkouts_def addLocalWorkout_def)

subsection \<open>The merge of datasets\<close>

text \<open>
  C5. \<open>mergeData\<close> returns the local dataset as it is when the remote one is absent, and
  the remote dataset as it is when the local one is absent.
\<close>

theorem mergeData_absent_side:
  "mergeData dp localData None = Inr localData \<and> mergeData dp None remoteData = Inr remoteData"
  by (cases remoteData) (simp_all add: mergeData_def)

lemma objects_map: "list_all is_object xs \<Longrightarrow> \<exists>ys. xs = map Obj ys"
proof (induction xs)
  case Nil
  show ?case by simp
next
  case (Cons x xs)
  then obtain ys where "xs = map Obj ys" by auto
  moreover from Cons.prems obtain y where "x = Obj y" by (cases x) auto
  ultimately have "x # xs = map Obj (y # ys)" by simp
  then show ?case by (rule exI)
qed

lemma three_collections_fields:
  "or_empty (workouts (three_collections d)) = or_empty (workouts d)"
  "or_empty (recentExercises (three_collections d)) = or_empty (recentExercises d)"
  "or_empty (bodyAnalyses (three_collections d)) = or_empty (bodyAnalyses d)"
  by (simp_all add: three_collections_def or_empty_def)

text \<open>
  C10. With both datasets present, a result of \<open>mergeData\<close> has the three collections and
  no other field; the result does not change when a missing collection is replaced by the
  empty array and the other fields are removed from the inputs; and there is a result
  whenever the arrays hold objects.
\<close>

theorem mergeData_both_present:
  "(mergeData dp (Some l) (Some r) = Inr res \<longrightarrow>
      (\<exists>mw mb. mergeWorkouts dp (or_empty (workouts l)) (or_empty (workouts r)) = Inr mw
         \<and> mergeBodyAnalyses dp (or_empty (bodyAnalyses l)) (or_empty (bodyAnalyses r)) = Inr mb
         \<and> res = Some \<lparr>workouts = Some (map Obj mw),
                        recentExercises =
                          Some (mergeRecentExercises (or_empty (recentExercises l))
                                                     (or_empty (recentExercises r))),
                        bodyAnalyses = Some (map Obj mb),
                        other_fields = []\<rparr>))
   \<and> mergeData dp (Some l) (Some r)
       = mergeData dp (Some (three_collections l)) (Some (three_collections r))
   \<and> (arrays_of_objects l \<and> arrays_of_objects r \<longrightarrow>
        (\<exists>d. mergeData dp (Some l) (Some r) = Inr (Some d)))"
proof (intro conjI impI)
  assume "mergeData dp (Some l) (Some r) = Inr res"
  then show "\<exists>mw mb. mergeWorkouts dp (or_empty (workouts l)) (or_empty (workouts r)) = Inr mw
         \<and> mergeBodyAnalyses dp (or_empty (bodyAnalyses l)) (or_empty (bodyAnalyses r)) = Inr mb
         \<and> res = Some \<lparr>workouts = Some (map Obj mw),
                        recentExercises =
                          Some (mergeRecentExercises (or_empty (recentExercises l))
                                                     (or_empty (recentExercises r))),
                        bodyAnalyses = Some (map Obj mb),
                        other_fields = []\<rparr>"
    by (auto simp: mergeData_def Let_def split: sum.splits)
next
  show "mergeData dp (Some l) (Some r)
       = mergeData dp (Some (three_collections l)) (Some (three_collections r))"
    by (simp add: mergeData_def three_collections_fields Let_def cong: sum.case_cong)
next
  assume h: "arrays_of_objects l \<and> arrays_of_objects r"
  then obtain lw rw la ra where
    "or_empty (workouts l) = map Obj lw" "or_empty (workouts r) = map Obj rw"
    "or_empty (bodyAnalyses l) = map Obj la" "or_empty (bodyAnalyses r) = map Obj ra"
    unfolding arrays_of_objects_def by (metis objects_map)
  then show "\<exists>d. mergeData dp (Some l) (Some r) = Inr (Some d)"
    by (simp add: mergeData_def mergeWorkouts_objects mergeBodyAnalyses_objects Let_def)
qed

theorem mergeData_both_present_witness:
  "arrays_of_objects
     \<lparr>workouts = None, recentExercises = Some [''squat''], bodyAnalyses = None,
      other_fields = [(''exportDate'', ''2024-01-05'')]\<rparr>
   \<and> arrays_of_objects
     \<lparr>workouts = Some [Obj (sample_workout ''a'' (JStr ''2024-01-01'') JUndefined ''remote'')],
      recentExercises = None, bodyAnalyses = Some [],
      other_fields = [(''config'', ''dark'')]\<rparr>
   \<and> mergeData parse_sample
       (Some \<lparr>workouts = None, recentExercises = Some [''squat''], bodyAnalyses = None,
              other_fields = [(''exportDate'', ''2024-01-05'')]\<rparr>)
       (Some \<lparr>workouts =
                Some [Obj (sample_workout ''a'' (JStr ''2024-01-01'') JUndefined ''remote'')],
              recentExercises = None, bodyAnalyses = Some [],
              other_fields = [(''config'', ''dark'')]\<rparr>)
     = Inr (Some \<lparr>workouts =
                     Some [Obj (sample_workout ''a'' (JStr ''2024-01-01'') JUndefined ''remote'')],
                   recentExercises = Some [''squat''], bodyAnalyses = Some [],
                   other_fields = []\<rparr>)"
  using mergeData_both_present [of parse_sample
       "\<lparr>workouts = None, recentExercises = Some [''squat''], bodyAnalyses = None,
              other_fields = [(''exportDate'', ''2024-01-05'')]\<rparr>"
       "\<lparr>workouts =
                Some [Obj (sample_workout ''a'' (JStr ''2024-01-01'') JUndefined ''remote'')],
              recentExercises = None, bodyAnalyses = Some [],
              other_fields = [(''config'', ''dark'')]\<rparr>"
       "Some \<lparr>workouts =
                     Some [Obj (sample_workout ''a'' (JStr ''2024-01-01'') JUndefined ''remote'')],
                   recentExercises = Some [''squat''], bodyAnalyses = Some [],
                   other_fields = []\<rparr>"]
  by (simp add: mergeData_def or_empty_def arrays_of_objects_def mergeRecentExercises_def
        set_add_def sample_eval merge_eval)

subsection \<open>One call of \<open>syncData\<close>\<close>

lemma createFolder_sent:
  "list_all (is_upload_of d) (snd (createFolder net token path))"
  by (simp add: createFolder_def split: option.splits fetch_result.splits)

lemma uploadFile_sent:
  "list_all (is_upload_of d) (snd (uploadFile net token path d))"
  by (simp add: uploadFile_def split: option.splits fetch_result.splits sum.splits)

lemma createFolder_sent_pair:
  "createFolder net token path = (res, sent) \<Longrightarrow> list_all (is_upload_of d) sent"
  using createFolder_sent [of d net token path] by simp

lemma uploadFile_sent_pair:
  "uploadFile net token path d = (res, sent) \<Longrightarrow> list_all (is_upload_of d) sent"
  using uploadFile_sent [of d net token path] by simp

lemma syncData_sent: "list_all (is_upload_of d) (snd (syncData net token d path))"
  by (auto simp: syncData_def Let_def split: option.splits prod.splits sum.splits
        dest: createFolder_sent_pair uploadFile_sent_pair)

lemma downloadFile_sent: "list_all is_download (snd (downloadFile net token path))"
  by (simp add: downloadFile_def split: option.splits fetch_result.splits sum.splits)

lemma downloadFile_sent_pair:
  "downloadFile net token path = (res, sent) \<Longrightarrow> list_all is_download sent"
  using downloadFile_sent [of net token path] by simp

lemma loadData_sent: "list_all is_download (snd (loadData net token path))"
  by (auto simp: loadData_def split: option.splits prod.splits sum.splits json_body.splits
        dest: downloadFile_sent_pair)

lemma createFolder_ok:
  "createFolder net token path = (Inr c, sent) \<Longrightarrow>
   \<exists>t. token = Some t \<and> sent = [CreateFolderPUT t path]"
  by (auto simp: createFolder_def split: option.splits fetch_result.splits if_splits)

lemma uploadFile_ok:
  "uploadFile net token path d = (Inr u, sent) \<Longrightarrow>
   \<exists>t h. token = Some t \<and> sent = [UploadUrlGET t path, FilePUT h d]"
  by (auto simp: uploadFile_def split: option.splits fetch_result.splits if_splits sum.splits)

lemma syncData_ok:
  assumes "syncData net token d remotePath = (Inr u, sent)"
  shows "\<exists>t p h. token = Some t \<and> remotePath = Some p
           \<and> sent = [CreateFolderPUT t (substring p 0 (lastIndexOf p CHR ''/'')),
                     UploadUrlGET t p, FilePUT h d]"
proof -
  from assms obtain t p where t: "token = Some t" and p: "remotePath = Some p"
    by (auto simp: syncData_def split: option.splits if_splits)
  let ?f = "substring p 0 (lastIndexOf p CHR ''/'')"
  from assms t p obtain c s1 s2 where
    c: "createFolder net token ?f = (Inr c, s1)" and
    u: "uploadFile net token p d = (Inr (), s2)" and s: "sent = s1 @ s2"
    by (auto simp: syncData_def Let_def split: if_splits prod.splits sum.splits)
  from createFolder_ok [OF c] uploadFile_ok [OF u] t s show ?thesis
    using p by auto
qed

text \<open>
  C2, as the code has it. \<open>syncData\<close> makes no download request and puts no document
  other than the one it is passed; when it succeeds it has asked for the folder of the
  path, asked for an upload link and put its argument there, and it succeeds when the
  folder request is answered with 409 or a success status and the two upload requests with
  success. Fetching is \<open>loadData\<close>, which makes download requests only and returns
  \<^verbatim>\<open>null\<close> when the file is missing; merging is \<open>mergeData\<close>, which \<open>syncData\<close> does not
  call.
\<close>

theorem syncData_uploads_its_argument:
  "list_all (is_upload_of d) (snd (syncData net token d remotePath))
   \<and> (fst (syncData net token d remotePath) = Inr () \<longrightarrow>
        (\<exists>t p h. token = Some t \<and> remotePath = Some p
           \<and> snd (syncData net token d remotePath)
               = [CreateFolderPUT t (substring p 0 (lastIndexOf p CHR ''/'')),
                  UploadUrlGET t p, FilePUT h d]))
   \<and> (tok \<noteq> [] \<and> href \<noteq> []
        \<and> net (CreateFolderPUT tok (substring path 0 (lastIndexOf path CHR ''/'')))
            = Response s1 b1 \<and> (s1 = 409 \<or> response_ok s1)
        \<and> net (UploadUrlGET tok path) = Response s2 (Some (JsonInfo (Some href)))
        \<and> response_ok s2
        \<and> net (FilePUT href d) = Response s3 b3 \<and> response_ok s3 \<longrightarrow>
        syncData net (Some tok) d (Some path)
        = (Inr (),
           [CreateFolderPUT tok (substring path 0 (lastIndexOf path CHR ''/'')),
            UploadUrlGET tok path, FilePUT href d]))
   \<and> list_all is_download (snd (loadData net token path))
   \<and> (tok \<noteq> [] \<and> net (DownloadUrlGET tok path) = Response 404 b4 \<longrightarrow>
        loadData net (Some tok) path = (Inr JsonNull, [DownloadUrlGET tok path]))"
proof (intro conjI impI)
  show "list_all (is_upload_of d) (snd (syncData net token d remotePath))"
    by (rule syncData_sent)
next
  assume "fst (syncData net token d remotePath) = Inr ()"
  then have "syncData net token d remotePath = (Inr (), snd (syncData net token d remotePath))"
    by (metis prod.collapse)
  from syncData_ok [OF this]
  show "\<exists>t p h. token = Some t \<and> remotePath = Some p
           \<and> snd (syncData net token d remotePath)
               = [CreateFolderPUT t (substring p 0 (lastIndexOf p CHR ''/'')),
                  UploadUrlGET t p, FilePUT h d]" .
next
  assume "tok \<noteq> [] \<and> href \<noteq> []
        \<and> net (CreateFolderPUT tok (substring path 0 (lastIndexOf path CHR ''/'')))
            = Response s1 b1 \<and> (s1 = 409 \<or> response_ok s1)
        \<and> net (UploadUrlGET tok path) = Response s2 (Some (JsonInfo (Some href)))
        \<and> response_ok s2
        \<and> net (FilePUT href d) = Response s3 b3 \<and> response_ok s3"
  then show "syncData net (Some tok) d (Some path)
        = (Inr (),
           [CreateFolderPUT tok (substring path 0 (lastIndexOf path CHR ''/'')),
            UploadUrlGET tok path, FilePUT href d])"
    by (auto simp: syncData_def createFolder_def uploadFile_def get_href_def Let_def)
next
  show "list_all is_download (snd (loadData net token path))"
    by (rule loadData_sent)
next
  assume "tok \<noteq> [] \<and> net (DownloadUrlGET tok path) = Response 404 b4"
  then show "loadData net (Some tok) path = (Inr JsonNull, [DownloadUrlGET tok path])"
    by (simp add: loadData_def downloadFile_def response_ok_def)
qed

theorem syncData_uploads_its_argument_witness:
  "''token'' \<noteq> [] \<and> ''https://uploader/target'' \<noteq> []
   \<and> sample_net (sample_dataset [])
        (CreateFolderPUT ''token''
           (substring ''/MyFitness/data.json'' 0 (lastIndexOf ''/MyFitness/data.json'' CHR ''/'')))
      = Response 409 (Some (JsonInfo None))
   \<and> sample_net (sample_dataset []) (UploadUrlGET ''token'' ''/MyFitness/data.json'')
      = Response 200 (Some (JsonInfo (Some ''https://uploader/target'')))
   \<and> response_ok 200
   \<and> sample_net (sample_dataset [])
        (FilePUT ''https://uploader/target''
           (sample_dataset [sample_workout ''a'' (JNum 1000) JUndefined ''local'']))
      = Response 201 None
   \<and> response_ok 201
   \<and> syncData (sample_net (sample_dataset [])) (Some ''token'')
        (sample_dataset [sample_workout ''a'' (JNum 1000) JUndefined ''local''])
        (Some ''/MyFitness/data.json'')
      = (Inr (),
         [CreateFolderPUT ''token'' ''/MyFitness'',
          UploadUrlGET ''token'' ''/MyFitness/data.json'',
          FilePUT ''https://uploader/target''
            (sample_dataset [sample_workout ''a'' (JNum 1000) JUndefined ''local''])])
   \<and> missing_file_net
        (DownloadUrlGET ''token'' ''/MyFitness/data.json'')
      = Response 404 None
   \<and> loadData missing_file_net
        (Some ''token'') ''/MyFitness/data.json''
      = (Inr JsonNull, [DownloadUrlGET ''token'' ''/MyFitness/data.json''])"
  using syncData_uploads_its_argument [of
      "sample_dataset [sample_workout ''a'' (JNum 1000) JUndefined ''local'']"
      "sample_net (sample_dataset [])" "Some ''token''" "Some ''/MyFitness/data.json''"
      "''token''" "''https://uploader/target''" "''/MyFitness/data.json''"
      409 "Some (JsonInfo None)" 200 201 None None]
    syncData_uploads_its_argument [of
      "sample_dataset []"
      missing_file_net
      "Some ''token''" "Some ''/MyFitness/data.json''"
      "''token''" "''h''" "''/MyFitness/data.json''"
      0 None 0 0 None None]
  by (simp add: sync_eval sample_eval)

text \<open>
  As first written, with \<open>syncData\<close> fetching, merging and uploading the merged dataset,
  the property fails: on a disk that holds another workout, \<open>syncData\<close> makes three
  requests, none a download, and puts the local dataset, which is not the merge of the two.
\<close>

theorem syncData_uploads_local_snapshot:
  "syncData
     (sample_net (sample_dataset [sample_workout ''b'' (JStr ''2024-01-05'') JUndefined ''remote'']))
     (Some ''token'')
     (sample_dataset [sample_workout ''a'' (JStr ''2024-01-01'') JUndefined ''local''])
     (Some ''/MyFitness/data.json'')
   = (Inr (),
      [CreateFolderPUT ''token'' ''/MyFitness'',
       UploadUrlGET ''token'' ''/MyFitness/data.json'',
       FilePUT ''https://uploader/target''
         (sample_dataset [sample_workout ''a'' (JStr ''2024-01-01'') JUndefined ''local''])])
   \<and> mergeData parse_sample
       (Some (sample_dataset [sample_workout ''a'' (JStr ''2024-01-01'') JUndefined ''local'']))
       (Some (sample_dataset [sample_workout ''b'' (JStr ''2024-01-05'') JUndefined ''remote'']))
     = Inr (Some (sample_dataset
                    [sample_workout ''b'' (JStr ''2024-01-05'') JUndefined ''remote'',
                     sample_workout ''a'' (JStr ''2024-01-01'') JUndefined ''local'']))
   \<and> sample_dataset [sample_workout ''b'' (JStr ''2024-01-05'') JUndefined ''remote'',
                      sample_workout ''a'' (JStr ''2024-01-01'') JUndefined ''local'']
     \<noteq> sample_dataset [sample_workout ''a'' (JStr ''2024-01-01'') JUndefined ''local'']"
  by (simp add: sync_eval mergeData_def or_empty_def mergeRecentExercises_def
        sample_eval merge_eval)

end
